theory Spec2Isabelle
  imports Complex_Main "HOL-Library.Word" "HOL-Library.Multiset" "HOL-Library.Sublist"
begin

unbundle bit_operations_syntax

section \<open>Numbers\<close>

text \<open>
  The component computes with JavaScript numbers. Finite numbers are modelled as
  \<^typ>\<open>real\<close>, the bitwise operators as operations on \<^typ>\<open>32 word\<close> (the operand is
  first reduced modulo \<open>2 ^ 32\<close>, as \<open>ToInt32\<close> does). Rounding errors of the double
  format are not modelled. The two places where a finite input makes the source produce
  a non-finite number (a division by \<open>steps = 0\<close> and by \<open>voxel = 0\<close>) are written out.
\<close>

definition trunc :: "real \<Rightarrow> int" where
  "trunc r = (if 0 \<le> r then \<lfloor>r\<rfloor> else \<lceil>r\<rceil>)"

text \<open>The remainder operator \<open>a % n\<close> on numbers: the result has the sign of \<open>a\<close>.\<close>

definition js_rem :: "real \<Rightarrow> real \<Rightarrow> real" where
  "js_rem a n = a - n * of_int (trunc (a / n))"

text \<open>\<open>v | 0\<close>: the integer \<open>v\<close> as a signed 32-bit value.\<close>

definition int32 :: "int \<Rightarrow> int" where
  "int32 v = sint (word_of_int v :: 32 word)"

text \<open>\<open>a ^ b\<close> on numbers holding integers.\<close>

definition js_xor :: "int \<Rightarrow> int \<Rightarrow> int" where
  "js_xor a b = sint ((word_of_int a :: 32 word) XOR word_of_int b)"

text \<open>
  \<open>rand\<close>: xorshift32. \<open>seed << 13\<close> and \<open>seed << 5\<close> shift the 32-bit value left,
  \<open>seed >>> 17\<close> shifts it right filling with zeros, \<open>seed >>> 0\<close> reads it unsigned.
\<close>

definition xorshift32 :: "32 word \<Rightarrow> 32 word" where
  "xorshift32 s0 =
     (let s1 = s0 XOR push_bit 13 s0;
          s2 = s1 XOR drop_bit 17 s1;
          s3 = s2 XOR push_bit 5 s2
      in s3)"

definition rand :: "int \<Rightarrow> real" where
  "rand seed = js_rem (real (unat (xorshift32 (word_of_int seed))) / 4294967295) 1"

section \<open>Stream parameter generator\<close>

record StreamParams =
  fx :: real
  fy :: real
  fz :: real
  ampY :: real
  ampZ :: real
  twist :: real
  swirl :: real
  phaseY :: real
  phaseZ :: real
  colorSeed :: real

text \<open>
  The sub-seed \<open>Math.floor((seedBase + id.length * k) * m) | 0\<close>. The identifiers of
  the page are ASCII, where \<open>id.length\<close> is the length of the character list.
\<close>

definition subSeed :: "string \<Rightarrow> real \<Rightarrow> real \<Rightarrow> real \<Rightarrow> int" where
  "subSeed ident seedBase k m = int32 \<lfloor>(seedBase + real (length ident) * k) * m\<rfloor>"

definition makeStreamParams :: "string \<Rightarrow> real \<Rightarrow> StreamParams" where
  "makeStreamParams ident seedBase =
     (let s1 = subSeed ident seedBase 13 1000003;
          s2 = subSeed ident seedBase 37 9999989;
          s3 = subSeed ident seedBase 91 7000001;
          s4 = subSeed ident seedBase 59 5000161
      in \<lparr> fx = 1.0 + rand s1 * 3.5,
           fy = 1.0 + rand s2 * 3.0,
           fz = 1.0 + rand s3 * 2.5,
           ampY = 0.25 + rand (js_xor s2 s3) * 0.45,
           ampZ = 0.25 + rand (js_xor s1 s4) * 0.45,
           twist = (rand (js_xor s1 s2) - 0.5) * 0.8,
           swirl = (rand (js_xor s2 s4) - 0.5) * 0.6,
           phaseY = rand (js_xor s3 s4) * pi * 2,
           phaseZ = rand (js_xor s4 s1) * pi * 2,
           colorSeed = of_int \<lfloor>rand (js_xor (js_xor (js_xor s1 s2) s3) s4) * 360\<rfloor> \<rparr>)"

section \<open>Curve sampler\<close>

text \<open>
  The fields \<open>x\<close>, \<open>y\<close>, \<open>z\<close>, \<open>u\<close> of a \<open>StreamPoint\<close> and \<open>w\<close>, \<open>h\<close> of
  \<open>Bounds\<close> carry a prefix here, the one-letter names being used for variables.
\<close>

record StreamPoint =
  ptX :: real
  ptY :: real
  ptZ :: real
  ptU :: real
  intensity :: real

record Bounds =
  boundsW :: real
  boundsH :: real

definition pointOnStream :: "real \<Rightarrow> real \<Rightarrow> StreamParams \<Rightarrow> Bounds \<Rightarrow> StreamPoint" where
  "pointOnStream u tau params bounds =
     (let uCentered = u - 0.5;
          x = boundsW bounds * uCentered
              + sin ((u * fx params + tau * 0.15) * pi * 2) * twist params * 25;
          y = (boundsH bounds * ampY params)
                * sin ((u * fy params + tau * 0.22) * pi * 2 + phaseY params)
              + cos ((u * 1.2 + tau * 0.07) * pi * 2) * 10;
          z = (boundsH bounds * ampZ params)
                * cos ((u * fz params + tau * 0.18) * pi * 2 + phaseZ params)
              + sin ((u * 0.9 + tau * 0.11) * pi * 2) * swirl params * 30;
          i = 0.5 + 0.5 * sin ((u * (fy params + fz params) + tau * 0.2) * pi * 2
                                + phaseY params * 0.5 + phaseZ params * 0.5)
      in \<lparr> ptX = x, ptY = y, ptZ = z, ptU = u, intensity = i \<rparr>)"

text \<open>
  The loop \<open>for (let i = 0; i <= steps; i++) pts.push(pointOnStream(i / steps, ...))\<close>.
  For \<open>steps = 0\<close> the source divides \<open>0 / 0\<close> and pushes one sample whose fields are
  all \<open>NaN\<close>; that sample is outside this model, and \<open>detectConvergenceAtTime\<close> below
  treats the case apart.
\<close>

function buildLoop ::
  "StreamParams \<Rightarrow> Bounds \<Rightarrow> int \<Rightarrow> real \<Rightarrow> int \<Rightarrow> StreamPoint list \<Rightarrow> StreamPoint list" where
  "buildLoop params bounds steps tau i pts =
     (if i \<le> steps
      then buildLoop params bounds steps tau (i + 1)
             (pts @ [pointOnStream (of_int i / of_int steps) tau params bounds])
      else pts)"
  by pat_completeness auto
termination
  by (relation "measure (\<lambda>(params, bounds, steps, tau, i, pts). nat (steps + 1 - i))") auto

definition buildStreamPointsAtTime ::
  "StreamParams \<Rightarrow> Bounds \<Rightarrow> int \<Rightarrow> real \<Rightarrow> StreamPoint list" where
  "buildStreamPointsAtTime params bounds steps tau = buildLoop params bounds steps tau 0 []"

section \<open>Convergence detection at a time slice\<close>

record StreamPointWithId = StreamPoint +
  streamId :: string

text \<open>
  A \<open>Convergence\<close> has the fields \<open>x\<close>, \<open>y\<close>, \<open>z\<close>, \<open>strength\<close>, \<open>u\<close> and
  \<open>streams\<close>; the coordinates take the names \<open>cx\<close>, \<open>cy\<close>, \<open>cz\<close> of the locals they
  are built from. A \<open>StreamData\<close> has the fields \<open>id\<close> and \<open>params\<close>.
\<close>

record Convergence =
  cx :: real
  cy :: real
  cz :: real
  strength :: real
  cu :: real
  streams :: "string list"

record StreamData =
  sdId :: string
  sdParams :: StreamParams

text \<open>The object \<open>{ ...p, streamId: s.id }\<close>.\<close>

definition withId :: "string \<Rightarrow> StreamPoint \<Rightarrow> StreamPointWithId" where
  "withId ident p =
     \<lparr> ptX = ptX p, ptY = ptY p, ptZ = ptZ p, ptU = ptU p, intensity = intensity p,
       streamId = ident \<rparr>"

text \<open>The first loop: the samples of every stream, in stream order, tagged with the owner.\<close>

definition samplePoints ::
  "StreamData list \<Rightarrow> real \<Rightarrow> int \<Rightarrow> Bounds \<Rightarrow> StreamPointWithId list" where
  "samplePoints strs tau steps bounds =
     concat (map (\<lambda>s. map (withId (sdId s))
                          (buildStreamPointsAtTime (sdParams s) bounds steps tau)) strs)"

text \<open>The inner loop over \<open>j\<close>, for a fixed \<open>a = all[i]\<close> and the samples after it.\<close>

fun scanRow ::
  "real \<Rightarrow> real \<Rightarrow> StreamPointWithId \<Rightarrow> StreamPointWithId list \<Rightarrow> Convergence list" where
  "scanRow sliceDu threshold a [] = []"
| "scanRow sliceDu threshold a (b # bs) =
     (if \<bar>ptU a - ptU b\<bar> > sliceDu then scanRow sliceDu threshold a bs
      else if streamId a = streamId b then scanRow sliceDu threshold a bs
      else
        (let dx = ptX a - ptX b; dy = ptY a - ptY b; dz = ptZ a - ptZ b;
             d2 = dx * dx + dy * dy + dz * dz
         in if d2 \<le> threshold * threshold
            then \<lparr> cx = (ptX a + ptX b) * 0.5, cy = (ptY a + ptY b) * 0.5,
                   cz = (ptZ a + ptZ b) * 0.5,
                   strength = (intensity a + intensity b) * 0.5,
                   cu = (ptU a + ptU b) * 0.5,
                   streams = [streamId a, streamId b] \<rparr>
                 # scanRow sliceDu threshold a bs
            else scanRow sliceDu threshold a bs))"

text \<open>The outer loop over \<open>i\<close>.\<close>

fun pairwiseScan :: "real \<Rightarrow> real \<Rightarrow> StreamPointWithId list \<Rightarrow> Convergence list" where
  "pairwiseScan sliceDu threshold [] = []"
| "pairwiseScan sliceDu threshold (a # rest) =
     scanRow sliceDu threshold a rest @ pairwiseScan sliceDu threshold rest"

text \<open>
  \<open>Math.round(c / voxel)\<close> as it is printed into the key. \<open>Math.round\<close> gives the
  integer nearest to its argument and, of two equally near, the larger one. For
  \<open>voxel = 0\<close> the quotient is not finite and is printed as \<open>Infinity\<close>,
  \<open>-Infinity\<close> or \<open>NaN\<close>.
\<close>

datatype cell = Cell int | PosInfinity | NegInfinity | NaN

definition roundedCell :: "real \<Rightarrow> real \<Rightarrow> cell" where
  "roundedCell c voxel =
     (if voxel = 0
      then (if 0 < c then PosInfinity else if c < 0 then NegInfinity else NaN)
      else Cell \<lfloor>c / voxel + 1 / 2\<rfloor>)"

text \<open>
  The key string joins the three printed numbers with \<open>_\<close>; two keys are the same
  string exactly when the three numbers agree, so the key is kept as a triple.
\<close>

type_synonym cellKey = "cell \<times> cell \<times> cell"

definition voxelKey :: "real \<Rightarrow> Convergence \<Rightarrow> cellKey" where
  "voxelKey voxel c = (roundedCell (cx c) voxel, roundedCell (cy c) voxel, roundedCell (cz c) voxel)"

fun dedupLoop :: "real \<Rightarrow> cellKey list \<Rightarrow> Convergence list \<Rightarrow> Convergence list" where
  "dedupLoop voxel seen [] = []"
| "dedupLoop voxel seen (c # cs) =
     (let key = voxelKey voxel c
      in if key \<in> set seen then dedupLoop voxel seen cs
         else c # dedupLoop voxel (key # seen) cs)"

text \<open>
  The stages of \<open>detectConvergenceAtTime\<close>. For \<open>steps = 0\<close> every sample is \<open>NaN\<close> in
  all its numbers, the test \<open>d2 <= threshold * threshold\<close> fails for every pair and
  nothing is pushed.
\<close>

definition candidates ::
  "StreamData list \<Rightarrow> real \<Rightarrow> real \<Rightarrow> real \<Rightarrow> int \<Rightarrow> Bounds \<Rightarrow> Convergence list" where
  "candidates strs tau sliceDu threshold steps bounds =
     (if steps = 0 then []
      else pairwiseScan sliceDu threshold (samplePoints strs tau steps bounds))"

definition dedupedEvents ::
  "StreamData list \<Rightarrow> real \<Rightarrow> real \<Rightarrow> real \<Rightarrow> int \<Rightarrow> Bounds \<Rightarrow> Convergence list" where
  "dedupedEvents strs tau sliceDu threshold steps bounds =
     (let voxel = threshold * 0.75
      in dedupLoop voxel [] (candidates strs tau sliceDu threshold steps bounds))"

text \<open>
  \<open>deduped.sort((a, b) => b.strength - a.strength)\<close> is a stable sort by decreasing
  strength, \<open>slice(0, 200)\<close> keeps the first 200.
\<close>

definition detectConvergenceAtTime ::
  "StreamData list \<Rightarrow> real \<Rightarrow> real \<Rightarrow> real \<Rightarrow> int \<Rightarrow> Bounds \<Rightarrow> Convergence list" where
  "detectConvergenceAtTime strs tau sliceDu threshold steps bounds =
     take 200 (sort_key (\<lambda>c. - strength c)
                 (dedupedEvents strs tau sliceDu threshold steps bounds))"

section \<open>Vocabulary of the specification\<close>

text \<open>The event the specification describes for a pair of samples.\<close>

definition midpointEvent :: "StreamPointWithId \<Rightarrow> StreamPointWithId \<Rightarrow> Convergence" where
  "midpointEvent a b =
     \<lparr> cx = (ptX a + ptX b) / 2, cy = (ptY a + ptY b) / 2, cz = (ptZ a + ptZ b) / 2,
       strength = (intensity a + intensity b) / 2, cu = (ptU a + ptU b) / 2,
       streams = [streamId a, streamId b] \<rparr>"

text \<open>
  The pairs the specification asks an event for: samples of different streams, path
  coordinates within the tolerance, squared distance within the squared threshold.
\<close>

definition converging :: "real \<Rightarrow> real \<Rightarrow> StreamPointWithId \<Rightarrow> StreamPointWithId \<Rightarrow> bool" where
  "converging sliceDu threshold a b \<longleftrightarrow>
     streamId a \<noteq> streamId b \<and> \<bar>ptU a - ptU b\<bar> \<le> sliceDu
     \<and> (ptX a - ptX b)\<^sup>2 + (ptY a - ptY b)\<^sup>2 + (ptZ a - ptZ b)\<^sup>2 \<le> threshold\<^sup>2"

text \<open>The index pairs \<open>(i, j)\<close> with \<open>i < j < n\<close>, each once, in the order of the scan.\<close>

definition indexPairs :: "nat \<Rightarrow> (nat \<times> nat) list" where
  "indexPairs n = concat (map (\<lambda>i. map (Pair i) [Suc i..<n]) [0..<n])"

text \<open>What an output reports of an event: the pair of identifiers, the position, the strength.\<close>

definition reportOf :: "Convergence \<Rightarrow> string set \<times> (real \<times> real \<times> real) \<times> real" where
  "reportOf c = (set (streams c), (cx c, cy c, cz c), strength c)"

definition reported :: "Convergence list \<Rightarrow> (string set \<times> (real \<times> real \<times> real) \<times> real) set" where
  "reported evs = set (map reportOf evs)"

text \<open>The positions \<open>i\<close> and \<open>j\<close> of a list exchanged.\<close>

definition swapAt :: "nat \<Rightarrow> nat \<Rightarrow> 'a list \<Rightarrow> 'a list" where
  "swapAt i j xs = xs[i := xs ! j, j := xs ! i]"

text \<open>
  Rounding to the nearest integer with halves away from zero, and the deduplication
  the specification describes with it: the first candidate of every cell key.
\<close>

definition roundHalfAway :: "real \<Rightarrow> int" where
  "roundHalfAway r = (if 0 \<le> r then \<lfloor>r + 1 / 2\<rfloor> else \<lceil>r - 1 / 2\<rceil>)"

definition specKey :: "real \<Rightarrow> Convergence \<Rightarrow> int \<times> int \<times> int" where
  "specKey voxel c =
     (roundHalfAway (cx c / voxel), roundHalfAway (cy c / voxel), roundHalfAway (cz c / voxel))"

text \<open>The elements of a list that are the first with their key.\<close>

definition firstPerKey :: "('a \<Rightarrow> 'k) \<Rightarrow> 'a list \<Rightarrow> 'a list" where
  "firstPerKey key xs =
     map (\<lambda>n. xs ! n) (filter (\<lambda>n. key (xs ! n) \<notin> key ` set (take n xs)) [0..<length xs])"

text \<open>
  The event of two samples that coincide: it lies on the sample and has the sample's
  intensity and path coordinate.
\<close>

definition coincidence :: "StreamPoint \<Rightarrow> string \<Rightarrow> string \<Rightarrow> Convergence" where
  "coincidence s a b =
     \<lparr> cx = ptX s, cy = ptY s, cz = ptZ s, strength = intensity s, cu = ptU s, streams = [a, b] \<rparr>"

section \<open>Auxiliary notions\<close>

text \<open>The loop of \<open>dedupLoop\<close> for any key.\<close>

fun keepFirst :: "('a \<Rightarrow> 'k) \<Rightarrow> 'k list \<Rightarrow> 'a list \<Rightarrow> 'a list" where
  "keepFirst key seen [] = []"
| "keepFirst key seen (x # xs) =
     (if key x \<in> set seen then keepFirst key seen xs else x # keepFirst key (key x # seen) xs)"

text \<open>
  What one sample reports against a multiset of samples, and what all ordered pairs of
  a multiset of samples report together.
\<close>

definition rowReports ::
  "real \<Rightarrow> real \<Rightarrow> StreamPointWithId \<Rightarrow> StreamPointWithId multiset
     \<Rightarrow> (string set \<times> (real \<times> real \<times> real) \<times> real) multiset" where
  "rowReports sliceDu threshold a X =
     image_mset (\<lambda>b. reportOf (midpointEvent a b)) (filter_mset (converging sliceDu threshold a) X)"

definition crossReports ::
  "real \<Rightarrow> real \<Rightarrow> StreamPointWithId multiset
     \<Rightarrow> (string set \<times> (real \<times> real \<times> real) \<times> real) multiset" where
  "crossReports sliceDu threshold X = (\<Sum>a\<in>#X. rowReports sliceDu threshold a X)"

section \<open>Inputs of the worked runs\<close>

text \<open>
  The bounds of the page, and the stream the page builds for an identifier when the
  seed basis is \<open>0\<close>.
\<close>

definition appBounds :: Bounds where
  "appBounds = \<lparr>boundsW = 520, boundsH = 520\<rparr>"

definition generated :: "string \<Rightarrow> StreamData" where
  "generated ident = \<lparr>sdId = ident, sdParams = makeStreamParams ident 0\<rparr>"

text \<open>
  Two streams with the same hand-picked parameters (no twist, no swirl, whole
  frequencies), in bounds as wide as one voxel of the default threshold \<open>64\<close>.
\<close>

definition calm :: StreamParams where
  "calm = \<lparr> fx = 1, fy = 2, fz = 2, ampY = 1 / 4, ampZ = 1 / 4, twist = 0, swirl = 0,
            phaseY = 0, phaseZ = 0, colorSeed = 0 \<rparr>"

definition narrowBounds :: Bounds where
  "narrowBounds = \<lparr>boundsW = 48, boundsH = 520\<rparr>"

definition calmPair :: "StreamData list" where
  "calmPair = [\<lparr>sdId = ''S-1'', sdParams = calm\<rparr>, \<lparr>sdId = ''S-2'', sdParams = calm\<rparr>]"

declare buildLoop.simps [simp del]

section \<open>The pseudo-random helper and the generated ranges\<close>

lemma trunc_nonneg: "0 \<le> r \<Longrightarrow> trunc r = \<lfloor>r\<rfloor>"
  by (simp add: trunc_def)

lemma js_rem_one_range:
  assumes "0 \<le> a"
  shows "0 \<le> js_rem a 1" and "js_rem a 1 < 1"
proof -
  have eq: "js_rem a 1 = a - of_int \<lfloor>a\<rfloor>"
    using assms by (simp add: js_rem_def trunc_nonneg)
  show "0 \<le> js_rem a 1" unfolding eq by linarith
  show "js_rem a 1 < 1" unfolding eq by linarith
qed

text \<open>The helper on the seed \<open>1\<close>: the first value of xorshift32.\<close>

lemma xorshift32_one: "xorshift32 1 = 270369"
  by (simp add: xorshift32_def Let_def)

lemma rand_one: "rand 1 = 270369 / 4294967295"
  by (simp add: rand_def xorshift32_one js_rem_def trunc_def)

text \<open>
  When the shifted word has all its bits set the quotient is \<open>1\<close>, and the remainder
  brings it back to \<open>0\<close>.
\<close>

lemma all_ones: "real (unat (- 1 :: 32 word)) = 4294967295"
proof -
  have "unat (- 1 :: 32 word) = 4294967295"
    by (simp add: unsigned_minus_1_eq_mask mask_eq_exp_minus_1)
  then show ?thesis by (simp only: of_nat_numeral)
qed

lemma rand_all_ones:
  assumes "xorshift32 (word_of_int seed) = - 1"
  shows "rand seed = 0"
  unfolding rand_def assms all_ones by (simp add: js_rem_def trunc_def)

lemma unat_frac_ge0: "0 \<le> real (unat (w::32 word)) / 4294967295"
  by (rule divide_nonneg_nonneg) (simp_all del: of_nat_unat)

lemma rand_ge0: "0 \<le> rand seed"
  unfolding rand_def by (rule js_rem_one_range) (rule unat_frac_ge0)

lemma rand_lt1: "rand seed < 1"
  unfolding rand_def by (rule js_rem_one_range) (rule unat_frac_ge0)

lemma remap_range:
  assumes "0 < k"
  shows "a \<le> a + rand s * k" and "a + rand s * k < a + (k::real)"
proof -
  from assms rand_ge0 [of s] show "a \<le> a + rand s * k" by simp
  from assms rand_lt1 [of s] have "rand s * k < 1 * k" by (intro mult_strict_right_mono) auto
  then show "a + rand s * k < a + k" by simp
qed

lemma colorSeed_range:
  assumes "0 \<le> r" "r < (1::real)"
  shows "0 \<le> \<lfloor>r * 360\<rfloor>" and "\<lfloor>r * 360\<rfloor> < 360"
proof -
  from assms show "0 \<le> \<lfloor>r * 360\<rfloor>" by simp
  from assms have "r * 360 < 360" by simp
  then show "\<lfloor>r * 360\<rfloor> < 360" by (simp add: floor_less_iff)
qed

text \<open>
  Claim C8. For every integer seed \<open>rand\<close> returns a value in \<open>[0, 1)\<close>, and for every
  identifier and seed basis the generated x-frequency lies in \<open>[1.0, 4.5)\<close>, both
  amplitude scales lie in \<open>[0.25, 0.70)\<close>, and the colour seed is an integer in
  \<open>[0, 360)\<close>.
\<close>

theorem rand_unit_interval_and_generated_ranges:
  "0 \<le> rand seed \<and> rand seed < 1
   \<and> 1.0 \<le> fx (makeStreamParams ident seedBase) \<and> fx (makeStreamParams ident seedBase) < 4.5
   \<and> 0.25 \<le> ampY (makeStreamParams ident seedBase) \<and> ampY (makeStreamParams ident seedBase) < 0.70
   \<and> 0.25 \<le> ampZ (makeStreamParams ident seedBase) \<and> ampZ (makeStreamParams ident seedBase) < 0.70
   \<and> (\<exists>k::int. colorSeed (makeStreamParams ident seedBase) = of_int k \<and> 0 \<le> k \<and> k < 360)"
proof -
  have fx: "1.0 \<le> fx (makeStreamParams ident seedBase)" "fx (makeStreamParams ident seedBase) < 4.5"
    using remap_range [of "3.5" 1 "subSeed ident seedBase 13 1000003"]
    by (simp_all add: makeStreamParams_def Let_def)
  have ay: "0.25 \<le> ampY (makeStreamParams ident seedBase)" "ampY (makeStreamParams ident seedBase) < 0.70"
    using remap_range [of "0.45" "0.25" "js_xor (subSeed ident seedBase 37 9999989) (subSeed ident seedBase 91 7000001)"]
    by (simp_all add: makeStreamParams_def Let_def)
  have az: "0.25 \<le> ampZ (makeStreamParams ident seedBase)" "ampZ (makeStreamParams ident seedBase) < 0.70"
    using remap_range [of "0.45" "0.25" "js_xor (subSeed ident seedBase 13 1000003) (subSeed ident seedBase 59 5000161)"]
    by (simp_all add: makeStreamParams_def Let_def)
  have cs: "\<exists>k::int. colorSeed (makeStreamParams ident seedBase) = of_int k \<and> 0 \<le> k \<and> k < 360"
    unfolding makeStreamParams_def Let_def
    using colorSeed_range [OF rand_ge0 rand_lt1] by auto
  from fx ay az cs rand_ge0 rand_lt1 show ?thesis by blast
qed

section \<open>The curve sampler\<close>

lemma half_sin_range: "0 \<le> 0.5 + 0.5 * sin (t::real)" "0.5 + 0.5 * sin (t::real) \<le> 1"
  using sin_ge_minus_one [of t] sin_le_one [of t] by linarith+

lemma intensity_pointOnStream:
  "intensity (pointOnStream u tau params bounds) =
     0.5 + 0.5 * sin ((u * (fy params + fz params) + tau * 0.2) * pi * 2
                       + phaseY params * 0.5 + phaseZ params * 0.5)"
  by (simp add: pointOnStream_def Let_def)

lemma ptU_pointOnStream: "ptU (pointOnStream u tau params bounds) = u"
  by (simp add: pointOnStream_def Let_def)

lemma ptX_pointOnStream:
  "ptX (pointOnStream u tau params bounds) =
     boundsW bounds * (u - 0.5) + sin ((u * fx params + tau * 0.15) * pi * 2) * twist params * 25"
  by (simp add: pointOnStream_def Let_def)

lemma ptY_pointOnStream:
  "ptY (pointOnStream u tau params bounds) =
     (boundsH bounds * ampY params) * sin ((u * fy params + tau * 0.22) * pi * 2 + phaseY params)
     + cos ((u * 1.2 + tau * 0.07) * pi * 2) * 10"
  by (simp add: pointOnStream_def Let_def)

lemma ptZ_pointOnStream:
  "ptZ (pointOnStream u tau params bounds) =
     (boundsH bounds * ampZ params) * cos ((u * fz params + tau * 0.18) * pi * 2 + phaseZ params)
     + sin ((u * 0.9 + tau * 0.11) * pi * 2) * swirl params * 30"
  by (simp add: pointOnStream_def Let_def)

text \<open>
  Claim C7. For every \<open>u\<close>, time, parameters and bounds the intensity of the sampled
  point lies in \<open>[0, 1]\<close>, and each coordinate of its position is an expression of the
  path coordinate, the time, the parameters and the bounds in which the intensity does
  not occur.
\<close>

theorem intensity_unit_interval_position_free_of_intensity:
  "0 \<le> intensity (pointOnStream u tau params bounds)
   \<and> intensity (pointOnStream u tau params bounds) \<le> 1
   \<and> ptX (pointOnStream u tau params bounds) =
       boundsW bounds * (u - 0.5) + sin ((u * fx params + tau * 0.15) * pi * 2) * twist params * 25
   \<and> ptY (pointOnStream u tau params bounds) =
       (boundsH bounds * ampY params) * sin ((u * fy params + tau * 0.22) * pi * 2 + phaseY params)
       + cos ((u * 1.2 + tau * 0.07) * pi * 2) * 10
   \<and> ptZ (pointOnStream u tau params bounds) =
       (boundsH bounds * ampZ params) * cos ((u * fz params + tau * 0.18) * pi * 2 + phaseZ params)
       + sin ((u * 0.9 + tau * 0.11) * pi * 2) * swirl params * 30"
  by (simp only: intensity_pointOnStream half_sin_range ptX_pointOnStream ptY_pointOnStream
        ptZ_pointOnStream simp_thms)

text \<open>
  The position does not follow the intensity either: a full turn added to \<open>phaseY\<close>
  leaves the position where it is and mirrors the intensity.
\<close>

lemma phase_turn_flips_intensity_only:
  fixes params :: StreamParams
  defines "q \<equiv> params\<lparr>phaseY := phaseY params + 2 * pi\<rparr>"
  shows "ptX (pointOnStream u tau q bounds) = ptX (pointOnStream u tau params bounds)"
    and "ptY (pointOnStream u tau q bounds) = ptY (pointOnStream u tau params bounds)"
    and "ptZ (pointOnStream u tau q bounds) = ptZ (pointOnStream u tau params bounds)"
    and "intensity (pointOnStream u tau q bounds) = 1 - intensity (pointOnStream u tau params bounds)"
proof -
  show "ptX (pointOnStream u tau q bounds) = ptX (pointOnStream u tau params bounds)"
    by (simp add: ptX_pointOnStream q_def)
  have "sin ((u * fy params + tau * 0.22) * pi * 2 + (phaseY params + 2 * pi))
        = sin (((u * fy params + tau * 0.22) * pi * 2 + phaseY params) + 2 * pi)"
    by (simp add: algebra_simps)
  then show "ptY (pointOnStream u tau q bounds) = ptY (pointOnStream u tau params bounds)"
    by (simp add: ptY_pointOnStream q_def del: sin_add)
  show "ptZ (pointOnStream u tau q bounds) = ptZ (pointOnStream u tau params bounds)"
    by (simp add: ptZ_pointOnStream q_def)
  have "sin ((u * (fy params + fz params) + tau * 0.2) * pi * 2
              + (phaseY params + 2 * pi) * 0.5 + phaseZ params * 0.5)
        = sin (((u * (fy params + fz params) + tau * 0.2) * pi * 2
              + phaseY params * 0.5 + phaseZ params * 0.5) + pi)"
    by (simp add: algebra_simps)
  then show "intensity (pointOnStream u tau q bounds) = 1 - intensity (pointOnStream u tau params bounds)"
    by (simp add: intensity_pointOnStream q_def del: sin_add)
qed

lemma buildLoop_eq:
  "buildLoop params bounds steps tau i pts =
     pts @ map (\<lambda>k. pointOnStream (of_int k / of_int steps) tau params bounds) [i..steps]"
proof (induction params bounds steps tau i pts rule: buildLoop.induct)
  case (1 params bounds steps tau i pts)
  show ?case
  proof (cases "i \<le> steps")
    case True
    then have "[i..steps] = i # [i + 1..steps]" by (simp add: upto_rec1)
    with True 1 show ?thesis by (subst buildLoop.simps) simp
  next
    case False
    then show ?thesis by (subst buildLoop.simps) simp
  qed
qed

lemma buildStreamPointsAtTime_eq:
  "buildStreamPointsAtTime params bounds steps tau =
     map (\<lambda>k. pointOnStream (of_int k / of_int steps) tau params bounds) [0..steps]"
  by (simp add: buildStreamPointsAtTime_def buildLoop_eq)

lemma length_buildStreamPointsAtTime:
  "length (buildStreamPointsAtTime params bounds steps tau) = nat (steps + 1)"
  by (simp add: buildStreamPointsAtTime_eq)

lemma nth_buildStreamPointsAtTime:
  assumes "int i \<le> steps"
  shows "buildStreamPointsAtTime params bounds steps tau ! i =
           pointOnStream (real i / of_int steps) tau params bounds"
proof -
  from assms have "i < length [0..steps]" by simp
  moreover from assms have "[0..steps] ! i = int i" by (simp add: nth_upto)
  ultimately show ?thesis by (simp add: buildStreamPointsAtTime_eq)
qed

text \<open>
  Claim C6. For every integer \<open>steps \<ge> 1\<close> the sampled curve has exactly \<open>steps + 1\<close>
  points, the \<open>i\<close>-th point is \<open>pointOnStream\<close> evaluated at \<open>u = i / steps\<close> and carries
  that \<open>u\<close>, the first point has \<open>u = 0\<close> and the last has \<open>u = 1\<close>.
\<close>

theorem sampleCurve_length_and_even_spacing:
  assumes "1 \<le> steps"
  shows "length (buildStreamPointsAtTime params bounds steps tau) = nat steps + 1
    \<and> (\<forall>i. i \<le> nat steps \<longrightarrow>
          buildStreamPointsAtTime params bounds steps tau ! i
            = pointOnStream (real i / of_int steps) tau params bounds
          \<and> ptU (buildStreamPointsAtTime params bounds steps tau ! i) = real i / of_int steps)
    \<and> ptU (hd (buildStreamPointsAtTime params bounds steps tau)) = 0
    \<and> ptU (last (buildStreamPointsAtTime params bounds steps tau)) = 1"
proof -
  let ?pts = "buildStreamPointsAtTime params bounds steps tau"
  have len: "length ?pts = nat steps + 1"
    using assms by (simp add: length_buildStreamPointsAtTime nat_add_distrib)
  have nth: "?pts ! i = pointOnStream (real i / of_int steps) tau params bounds" if "i \<le> nat steps" for i
    using that assms by (intro nth_buildStreamPointsAtTime) linarith
  have u: "ptU (?pts ! i) = real i / of_int steps" if "i \<le> nat steps" for i
    using nth [OF that] by (simp add: ptU_pointOnStream)
  from len have ne: "?pts \<noteq> []" by auto
  have "hd ?pts = ?pts ! 0" using ne by (simp add: hd_conv_nth)
  then have first: "ptU (hd ?pts) = 0" using u [of 0] by simp
  have "last ?pts = ?pts ! nat steps" using ne len by (simp add: last_conv_nth)
  then have final: "ptU (last ?pts) = 1" using u [of "nat steps"] assms by simp
  from len nth u first final show ?thesis by blast
qed

text \<open>The curve of a generated stream sampled with two segments.\<close>

theorem sampleCurve_length_and_even_spacing_witness:
  "(1::int) \<le> 2
   \<and> length (buildStreamPointsAtTime (makeStreamParams ''S-1'' 0)
         \<lparr>boundsW = 520, boundsH = 520\<rparr> 2 0) = 3
   \<and> ptU (buildStreamPointsAtTime (makeStreamParams ''S-1'' 0)
         \<lparr>boundsW = 520, boundsH = 520\<rparr> 2 0 ! 1) = 1 / 2"
  using sampleCurve_length_and_even_spacing
    [of 2 "makeStreamParams ''S-1'' 0" "\<lparr>boundsW = 520, boundsH = 520\<rparr>" 0]
  by (simp add: ptU_pointOnStream)

lemma twist_bound: "\<bar>twist (makeStreamParams ident seedBase)\<bar> \<le> 0.4"
proof -
  define r where "r = rand (js_xor (subSeed ident seedBase 13 1000003) (subSeed ident seedBase 37 9999989))"
  have "0 \<le> r" "r < 1" by (simp_all add: r_def rand_ge0 rand_lt1)
  then have "\<bar>(r - 0.5) * 0.8\<bar> \<le> 0.4" unfolding abs_le_iff by (auto simp: field_simps)
  then show ?thesis by (simp add: makeStreamParams_def Let_def r_def)
qed

lemma swirl_bound: "\<bar>swirl (makeStreamParams ident seedBase)\<bar> \<le> 0.3"
proof -
  define r where "r = rand (js_xor (subSeed ident seedBase 37 9999989) (subSeed ident seedBase 59 5000161))"
  have "0 \<le> r" "r < 1" by (simp_all add: r_def rand_ge0 rand_lt1)
  then have "\<bar>(r - 0.5) * 0.6\<bar> \<le> 0.3" unfolding abs_le_iff by (auto simp: field_simps)
  then show ?thesis by (simp add: makeStreamParams_def Let_def r_def)
qed

lemma abs_wave_le:
  fixes s c k :: real
  assumes "\<bar>s\<bar> \<le> 1" "\<bar>c\<bar> \<le> k"
  shows "\<bar>s * c\<bar> \<le> k"
proof -
  have "\<bar>s * c\<bar> = \<bar>s\<bar> * \<bar>c\<bar>" by (simp add: abs_mult)
  also have "\<dots> \<le> 1 * k" using assms by (intro mult_mono) auto
  finally show ?thesis by simp
qed

lemma amp_scale:
  fixes h a :: real
  assumes "0 \<le> h" "0 \<le> a" "a \<le> 0.70"
  shows "\<bar>h * a\<bar> \<le> 0.70 * h"
proof -
  have "h * a \<le> h * 0.70" using assms by (intro mult_left_mono) auto
  moreover have "0 \<le> h * a" using assms by simp
  ultimately show ?thesis by (simp add: mult.commute)
qed

text \<open>
  Claim C10. For \<open>u\<close> in \<open>[0, 1]\<close>, any time, bounds of non-negative width and height and
  generated parameters, the twist is at most \<open>0.4\<close> and the swirl at most \<open>0.3\<close> in
  absolute value, and the position satisfies \<open>|x| \<le> w / 2 + 10\<close>,
  \<open>|y| \<le> 0.70 h + 10\<close> and \<open>|z| \<le> 0.70 h + 9\<close>.
\<close>

theorem position_in_bounded_box:
  assumes u: "0 \<le> u" "u \<le> 1"
    and b: "0 \<le> boundsW bounds" "0 \<le> boundsH bounds"
    and p: "params = makeStreamParams ident seedBase"
  shows "\<bar>twist params\<bar> \<le> 0.4 \<and> \<bar>swirl params\<bar> \<le> 0.3
    \<and> \<bar>ptX (pointOnStream u tau params bounds)\<bar> \<le> boundsW bounds / 2 + 10
    \<and> \<bar>ptY (pointOnStream u tau params bounds)\<bar> \<le> 0.70 * boundsH bounds + 10
    \<and> \<bar>ptZ (pointOnStream u tau params bounds)\<bar> \<le> 0.70 * boundsH bounds + 9"
proof -
  have tw: "\<bar>twist params\<bar> \<le> 0.4" and sw: "\<bar>swirl params\<bar> \<le> 0.3"
    unfolding p by (rule twist_bound, rule swirl_bound)
  have ay: "0 \<le> ampY params" "ampY params \<le> 0.70"
    using remap_range [of "0.45" "0.25" "js_xor (subSeed ident seedBase 37 9999989) (subSeed ident seedBase 91 7000001)"]
    by (simp_all add: p makeStreamParams_def Let_def)
  have az: "0 \<le> ampZ params" "ampZ params \<le> 0.70"
    using remap_range [of "0.45" "0.25" "js_xor (subSeed ident seedBase 13 1000003) (subSeed ident seedBase 59 5000161)"]
    by (simp_all add: p makeStreamParams_def Let_def)
  have base: "\<bar>boundsW bounds * (u - 0.5)\<bar> \<le> boundsW bounds / 2"
  proof -
    have "\<bar>boundsW bounds * (u - 0.5)\<bar> = boundsW bounds * \<bar>u - 0.5\<bar>"
      using b(1) by (simp add: abs_mult)
    also have "\<dots> \<le> boundsW bounds * 0.5"
    proof (rule mult_left_mono [OF _ b(1)])
      show "\<bar>u - 0.5\<bar> \<le> 0.5" using u unfolding abs_le_iff by auto
    qed
    finally show ?thesis by simp
  qed
  have tx: "\<bar>sin ((u * fx params + tau * 0.15) * pi * 2) * twist params * 25\<bar> \<le> 10"
    using abs_wave_le [of "sin ((u * fx params + tau * 0.15) * pi * 2)" "twist params * 25" 10] tw
    by (simp add: mult.assoc)
  have hy: "\<bar>boundsH bounds * ampY params\<bar> \<le> 0.70 * boundsH bounds"
    using amp_scale [OF b(2) ay] .
  have hz: "\<bar>boundsH bounds * ampZ params\<bar> \<le> 0.70 * boundsH bounds"
    using amp_scale [OF b(2) az] .
  have y1: "\<bar>(boundsH bounds * ampY params)
              * sin ((u * fy params + tau * 0.22) * pi * 2 + phaseY params)\<bar> \<le> 0.70 * boundsH bounds"
    using abs_wave_le [OF _ hy, of "sin ((u * fy params + tau * 0.22) * pi * 2 + phaseY params)"]
    by (simp add: mult.commute del: sin_add)
  have y2: "\<bar>cos ((u * 1.2 + tau * 0.07) * pi * 2) * 10\<bar> \<le> 10"
    using abs_wave_le [of "cos ((u * 1.2 + tau * 0.07) * pi * 2)" 10 10] by simp
  have z1: "\<bar>(boundsH bounds * ampZ params)
              * cos ((u * fz params + tau * 0.18) * pi * 2 + phaseZ params)\<bar> \<le> 0.70 * boundsH bounds"
    using abs_wave_le [OF _ hz, of "cos ((u * fz params + tau * 0.18) * pi * 2 + phaseZ params)"]
    by (simp add: mult.commute del: cos_add)
  have z2: "\<bar>sin ((u * 0.9 + tau * 0.11) * pi * 2) * swirl params * 30\<bar> \<le> 9"
    using abs_wave_le [of "sin ((u * 0.9 + tau * 0.11) * pi * 2)" "swirl params * 30" 9] sw
    by (simp add: mult.assoc)
  have X: "\<bar>ptX (pointOnStream u tau params bounds)\<bar> \<le> boundsW bounds / 2 + 10"
    unfolding ptX_pointOnStream using base tx by linarith
  have Y: "\<bar>ptY (pointOnStream u tau params bounds)\<bar> \<le> 0.70 * boundsH bounds + 10"
    unfolding ptY_pointOnStream using y1 y2 by linarith
  have Z: "\<bar>ptZ (pointOnStream u tau params bounds)\<bar> \<le> 0.70 * boundsH bounds + 9"
    unfolding ptZ_pointOnStream using z1 z2 by linarith
  from tw sw X Y Z show ?thesis by blast
qed

text \<open>The middle of a generated curve, in the bounds of the page, at time \<open>3\<close>.\<close>

theorem position_in_bounded_box_witness:
  "(0::real) \<le> 1 / 2 \<and> (1 / 2::real) \<le> 1
   \<and> 0 \<le> boundsW \<lparr>boundsW = 520, boundsH = 520\<rparr>
   \<and> 0 \<le> boundsH \<lparr>boundsW = 520, boundsH = 520\<rparr>
   \<and> \<bar>ptX (pointOnStream (1 / 2) 3 (makeStreamParams ''S-1'' 7)
          \<lparr>boundsW = 520, boundsH = 520\<rparr>)\<bar> \<le> 270
   \<and> \<bar>ptY (pointOnStream (1 / 2) 3 (makeStreamParams ''S-1'' 7)
          \<lparr>boundsW = 520, boundsH = 520\<rparr>)\<bar> \<le> 374
   \<and> \<bar>ptZ (pointOnStream (1 / 2) 3 (makeStreamParams ''S-1'' 7)
          \<lparr>boundsW = 520, boundsH = 520\<rparr>)\<bar> \<le> 373"
  using position_in_bounded_box
    [of "1 / 2" "\<lparr>boundsW = 520, boundsH = 520\<rparr>" "makeStreamParams ''S-1'' 7" "''S-1''" 7 3]
  by simp

section \<open>The pairwise scan\<close>

lemma withId_sel [simp]:
  "ptX (withId i p) = ptX p" "ptY (withId i p) = ptY p" "ptZ (withId i p) = ptZ p"
  "ptU (withId i p) = ptU p" "intensity (withId i p) = intensity p" "streamId (withId i p) = i"
  by (simp_all add: withId_def)

lemma scanRow_eq:
  "scanRow sliceDu threshold a bs = map (midpointEvent a) (filter (converging sliceDu threshold a) bs)"
  by (induction bs) (auto simp: midpointEvent_def converging_def Let_def power2_eq_square)

lemma pairwiseScan_rows:
  "pairwiseScan sliceDu threshold xs =
     concat (map (\<lambda>i. map (midpointEvent (xs ! i))
                          (filter (converging sliceDu threshold (xs ! i)) (drop (Suc i) xs)))
                 [0..<length xs])"
proof (induction xs)
  case Nil
  show ?case by simp
next
  case (Cons a rest)
  have "[0..<length (a # rest)] = 0 # map Suc [0..<length rest]"
    by (simp add: upt_conv_Cons map_Suc_upt del: upt_Suc)
  then show ?case
    by (simp add: Cons.IH scanRow_eq comp_def del: upt_Suc)
qed

lemma drop_as_indices: "drop k xs = map (\<lambda>j. xs ! j) [k..<length xs]"
  by (rule nth_equalityI) auto

lemma pairwiseScan_eq:
  "pairwiseScan sliceDu threshold xs =
     map (\<lambda>(i, j). midpointEvent (xs ! i) (xs ! j))
         (filter (\<lambda>(i, j). converging sliceDu threshold (xs ! i) (xs ! j))
                 (indexPairs (length xs)))"
  unfolding pairwiseScan_rows indexPairs_def
  by (simp add: map_concat filter_concat comp_def filter_map drop_as_indices [of "Suc _" xs])

lemma set_indexPairs: "set (indexPairs n) = {(i, j). i < j \<and> j < n}"
  by (fastforce simp: indexPairs_def)

lemma distinct_indexPairs: "distinct (indexPairs n)"
  unfolding indexPairs_def
proof (rule distinct_concat)
  show "distinct (map (\<lambda>i. map (Pair i) [Suc i..<n]) [0..<n])"
    by (auto simp: distinct_map inj_on_def dest!: arg_cong [where f = length])
  show "distinct ys" if "ys \<in> set (map (\<lambda>i. map (Pair i) [Suc i..<n]) [0..<n])" for ys
    using that by (auto simp: distinct_map inj_on_def)
  show "set ys \<inter> set zs = {}"
    if "ys \<in> set (map (\<lambda>i. map (Pair i) [Suc i..<n]) [0..<n])"
      "zs \<in> set (map (\<lambda>i. map (Pair i) [Suc i..<n]) [0..<n])" "ys \<noteq> zs" for ys zs
    using that by auto
qed

lemma mem_pairwiseScan:
  assumes "i < j" "j < length xs" "converging sliceDu threshold (xs ! i) (xs ! j)"
  shows "midpointEvent (xs ! i) (xs ! j) \<in> set (pairwiseScan sliceDu threshold xs)"
proof -
  have "(i, j) \<in> set (filter (\<lambda>(i, j). converging sliceDu threshold (xs ! i) (xs ! j))
                         (indexPairs (length xs)))"
    using assms by (simp add: set_indexPairs)
  then have "(\<lambda>(i, j). midpointEvent (xs ! i) (xs ! j)) (i, j) \<in> set (pairwiseScan sliceDu threshold xs)"
    unfolding pairwiseScan_eq set_map by (rule imageI)
  then show ?thesis by simp
qed

lemma streams_of_candidate:
  assumes "c \<in> set (pairwiseScan sliceDu threshold xs)"
  shows "\<exists>s t. streams c = [s, t] \<and> s \<noteq> t"
  using assms unfolding pairwiseScan_eq
  by (auto simp: midpointEvent_def converging_def)

text \<open>
  Every stream contributes \<open>steps + 1\<close> samples, so the sample at position \<open>i\<close> of the
  list belongs to the stream at position \<open>i div (steps + 1)\<close>.
\<close>

lemma nth_concat_uniform:
  assumes "\<And>xs. xs \<in> set xss \<Longrightarrow> length xs = m" "i < length xss * m"
  shows "concat xss ! i = xss ! (i div m) ! (i mod m)"
  using assms
proof (induction xss arbitrary: i)
  case Nil
  then show ?case by simp
next
  case (Cons xs xss)
  have len: "length xs = m" using Cons.prems(1) by simp
  from Cons.prems(2) have mpos: "0 < m" by (cases m) auto
  show ?case
  proof (cases "i < m")
    case True
    then show ?thesis by (simp add: nth_append len)
  next
    case False
    then have ge: "m \<le> i" by simp
    with Cons.prems(2) have "i - m < length xss * m" by simp
    then have "concat xss ! (i - m) = xss ! ((i - m) div m) ! ((i - m) mod m)"
      using Cons.prems(1) by (intro Cons.IH) auto
    moreover have "i div m = Suc ((i - m) div m)" using ge mpos by (simp add: le_div_geq)
    moreover have "i mod m = (i - m) mod m" using ge by (simp add: le_mod_geq)
    ultimately show ?thesis using False by (simp add: nth_append len)
  qed
qed

lemma length_concat_uniform:
  "(\<And>xs. xs \<in> set xss \<Longrightarrow> length xs = m) \<Longrightarrow> length (concat xss) = length xss * m"
  by (induction xss) auto

lemma length_samplePoints:
  "length (samplePoints strs tau steps bounds) = length strs * nat (steps + 1)"
  unfolding samplePoints_def
  by (subst length_concat_uniform [where m = "nat (steps + 1)"])
     (auto simp: length_buildStreamPointsAtTime)

lemma nth_samplePoints:
  assumes "i < length strs * nat (steps + 1)"
  shows "samplePoints strs tau steps bounds ! i =
           withId (sdId (strs ! (i div nat (steps + 1))))
             (buildStreamPointsAtTime (sdParams (strs ! (i div nat (steps + 1)))) bounds steps tau
                ! (i mod nat (steps + 1)))"
proof -
  let ?m = "nat (steps + 1)"
  let ?xss = "map (\<lambda>s. map (withId (sdId s)) (buildStreamPointsAtTime (sdParams s) bounds steps tau)) strs"
  from assms have mpos: "0 < ?m" by (cases ?m) auto
  have k: "i div ?m < length strs" using assms mpos by (simp add: less_mult_imp_div_less)
  have r: "i mod ?m < ?m" using mpos by simp
  have "concat ?xss ! i = ?xss ! (i div ?m) ! (i mod ?m)"
    using assms by (intro nth_concat_uniform) (auto simp: length_buildStreamPointsAtTime)
  then show ?thesis
    using k r by (simp add: samplePoints_def length_buildStreamPointsAtTime)
qed

lemma streamId_withId: "streamId (withId ident p) = ident"
  by (simp add: withId_def)

lemma owner_of_sample:
  assumes "distinct (map sdId strs)"
    and "i < length (samplePoints strs tau steps bounds)"
    and "j < length (samplePoints strs tau steps bounds)"
  shows "streamId (samplePoints strs tau steps bounds ! i) = streamId (samplePoints strs tau steps bounds ! j)
         \<longleftrightarrow> i div nat (steps + 1) = j div nat (steps + 1)"
proof -
  let ?m = "nat (steps + 1)"
  from assms(2) have i: "i < length strs * ?m" by (simp add: length_samplePoints)
  from assms(3) have j: "j < length strs * ?m" by (simp add: length_samplePoints)
  from i have mpos: "0 < ?m" by (cases ?m) auto
  have ki: "i div ?m < length strs" using i mpos by (simp add: less_mult_imp_div_less)
  have kj: "j div ?m < length strs" using j mpos by (simp add: less_mult_imp_div_less)
  have "sdId (strs ! (i div ?m)) = sdId (strs ! (j div ?m)) \<longleftrightarrow> i div ?m = j div ?m"
    using assms(1) ki kj by (auto simp: distinct_conv_nth)
  then show ?thesis
    by (simp add: nth_samplePoints [OF i] nth_samplePoints [OF j] streamId_withId)
qed

text \<open>
  Claim C1. The candidate list before deduplication consists, in the order of the scan,
  of one event for each pair of positions \<open>i < j\<close> of the sample list whose samples
  have different stream identifiers, path coordinates no further apart than
  \<open>sliceDu\<close> and squared distance at most \<open>threshold\<^sup>2\<close>; the event is the midpoint event
  of the two samples (midpoint position, mean intensity, mean path coordinate, the two
  identifiers). The index pairs are the unordered pairs, each once. No candidate names
  one identifier twice. When the identifiers of the streams are distinct, two samples
  have different identifiers exactly when they belong to different streams. (For
  \<open>steps = 0\<close> there is no candidate.)
\<close>

theorem candidates_are_exactly_the_converging_pairs:
  "(steps \<noteq> 0 \<longrightarrow>
      candidates strs tau sliceDu threshold steps bounds =
        map (\<lambda>(i, j). midpointEvent (samplePoints strs tau steps bounds ! i)
                                    (samplePoints strs tau steps bounds ! j))
          (filter (\<lambda>(i, j). converging sliceDu threshold (samplePoints strs tau steps bounds ! i)
                                                         (samplePoints strs tau steps bounds ! j))
             (indexPairs (length (samplePoints strs tau steps bounds)))))
   \<and> (steps = 0 \<longrightarrow> candidates strs tau sliceDu threshold steps bounds = [])
   \<and> distinct (indexPairs n) \<and> set (indexPairs n) = {(i, j). i < j \<and> j < n}
   \<and> (\<forall>c \<in> set (candidates strs tau sliceDu threshold steps bounds).
         \<exists>s t. streams c = [s, t] \<and> s \<noteq> t)
   \<and> (distinct (map sdId strs) \<longrightarrow>
        (\<forall>i < length (samplePoints strs tau steps bounds).
         \<forall>j < length (samplePoints strs tau steps bounds).
           (streamId (samplePoints strs tau steps bounds ! i)
              \<noteq> streamId (samplePoints strs tau steps bounds ! j))
           = (i div nat (steps + 1) \<noteq> j div nat (steps + 1))))"
proof -
  have a: "steps \<noteq> 0 \<longrightarrow>
      candidates strs tau sliceDu threshold steps bounds =
        map (\<lambda>(i, j). midpointEvent (samplePoints strs tau steps bounds ! i)
                                    (samplePoints strs tau steps bounds ! j))
          (filter (\<lambda>(i, j). converging sliceDu threshold (samplePoints strs tau steps bounds ! i)
                                                         (samplePoints strs tau steps bounds ! j))
             (indexPairs (length (samplePoints strs tau steps bounds))))"
    by (simp add: candidates_def pairwiseScan_eq)
  have b: "steps = 0 \<longrightarrow> candidates strs tau sliceDu threshold steps bounds = []"
    by (simp add: candidates_def)
  have c: "\<forall>c \<in> set (candidates strs tau sliceDu threshold steps bounds).
         \<exists>s t. streams c = [s, t] \<and> s \<noteq> t"
    by (auto simp: candidates_def dest: streams_of_candidate)
  have d: "distinct (map sdId strs) \<longrightarrow>
        (\<forall>i < length (samplePoints strs tau steps bounds).
         \<forall>j < length (samplePoints strs tau steps bounds).
           (streamId (samplePoints strs tau steps bounds ! i)
              \<noteq> streamId (samplePoints strs tau steps bounds ! j))
           = (i div nat (steps + 1) \<noteq> j div nat (steps + 1)))"
    using owner_of_sample [of strs _ tau steps bounds] by blast
  from a b c d distinct_indexPairs [of n] set_indexPairs [of n] show ?thesis by blast
qed

lemma length_filter_mono:
  "(\<And>x. x \<in> set xs \<Longrightarrow> P x \<Longrightarrow> Q x) \<Longrightarrow> length (filter P xs) \<le> length (filter Q xs)"
  by (induction xs) auto

lemma converging_mono:
  assumes "0 \<le> t1" "t1 \<le> t2" "converging sliceDu t1 a b"
  shows "converging sliceDu t2 a b"
proof -
  from assms(1,2) have "t1\<^sup>2 \<le> t2\<^sup>2" by (rule power_mono [rotated])
  with assms(3) show ?thesis by (auto simp: converging_def)
qed

lemma length_pairwiseScan_mono:
  assumes "0 \<le> t1" "t1 \<le> t2"
  shows "length (pairwiseScan sliceDu t1 xs) \<le> length (pairwiseScan sliceDu t2 xs)"
  unfolding pairwiseScan_eq length_map
  by (rule length_filter_mono) (auto intro: converging_mono [OF assms])

text \<open>
  Claim C9. For thresholds \<open>0 \<le> t1 \<le> t2\<close> and all other inputs fixed, the candidate
  list for \<open>t2\<close> is at least as long as the one for \<open>t1\<close>.
\<close>

theorem threshold_monotone_candidate_count:
  assumes "0 \<le> t1" "t1 \<le> t2"
  shows "length (candidates strs tau sliceDu t1 steps bounds)
           \<le> length (candidates strs tau sliceDu t2 steps bounds)"
  using length_pairwiseScan_mono [OF assms] by (simp add: candidates_def)

section \<open>Deduplication, ranking and the cap\<close>

lemma keepFirst_eq:
  "keepFirst key seen xs =
     map (\<lambda>n. xs ! n)
       (filter (\<lambda>n. key (xs ! n) \<notin> set seen \<union> key ` set (take n xs)) [0..<length xs])"
proof (induction xs arbitrary: seen)
  case Nil
  show ?case by simp
next
  case (Cons x xs)
  have idx: "[0..<length (x # xs)] = 0 # map Suc [0..<length xs]"
    by (simp add: upt_conv_Cons map_Suc_upt del: upt_Suc)
  show ?case
  proof (cases "key x \<in> set seen")
    case True
    then have ne: "k \<noteq> key x" if "k \<notin> set seen" for k
      using that by auto
    from True show ?thesis
      unfolding idx by (simp add: Cons.IH filter_map comp_def ne cong: conj_cong)
  next
    case False
    then show ?thesis
      unfolding idx by (simp add: Cons.IH filter_map comp_def conj_left_commute)
  qed
qed

lemma firstPerKey_keepFirst: "firstPerKey key xs = keepFirst key [] xs"
  by (simp add: keepFirst_eq firstPerKey_def)

lemma dedupLoop_keepFirst: "dedupLoop voxel seen cs = keepFirst (voxelKey voxel) seen cs"
  by (induction cs arbitrary: seen) (simp_all add: Let_def)

lemma set_dedupLoop_subset: "set (dedupLoop voxel seen cs) \<subseteq> set cs"
  by (induction cs arbitrary: seen) (auto simp: Let_def)

lemma length_dedupLoop_le: "length (dedupLoop voxel seen cs) \<le> length cs"
  by (induction cs arbitrary: seen) (auto simp: Let_def le_SucI)

lemma dedupLoop_keys:
  "voxelKey voxel ` set (dedupLoop voxel seen cs) = voxelKey voxel ` set cs - set seen"
  by (induction cs arbitrary: seen) (auto simp: Let_def)

lemma dedupLoop_distinct_keys:
  "distinct (map (voxelKey voxel) cs) \<Longrightarrow> voxelKey voxel ` set cs \<inter> set seen = {}
     \<Longrightarrow> dedupLoop voxel seen cs = cs"
  by (induction cs arbitrary: seen) (auto simp: Let_def)

lemma roundedCell_nearest:
  assumes "voxel \<noteq> 0"
  shows "roundedCell c voxel = Cell n \<longleftrightarrow> of_int n - 1 / 2 \<le> c / voxel \<and> c / voxel < of_int n + 1 / 2"
proof -
  have "\<lfloor>c / voxel + 1 / 2\<rfloor> = n \<longleftrightarrow> of_int n \<le> c / voxel + 1 / 2 \<and> c / voxel + 1 / 2 < of_int n + 1"
    by (rule floor_eq_iff)
  also have "\<dots> \<longleftrightarrow> of_int n - 1 / 2 \<le> c / voxel \<and> c / voxel < of_int n + 1 / 2"
    by auto
  finally show ?thesis using assms by (simp add: roundedCell_def)
qed

text \<open>
  Claim C4, amended. Deduplication keeps exactly the candidates that are the first, in
  the order of the scan, with their cell key. The key of a candidate is the triple of
  its coordinates divided by \<open>threshold * 0.75\<close> and rounded by \<open>Math.round\<close>: to the
  nearest integer, a half going up (towards plus infinity), not away from zero.
\<close>

theorem dedup_keeps_first_of_each_cell:
  "dedupedEvents strs tau sliceDu threshold steps bounds
     = firstPerKey (voxelKey (threshold * 0.75)) (candidates strs tau sliceDu threshold steps bounds)
   \<and> voxelKey voxel c = (roundedCell (cx c) voxel, roundedCell (cy c) voxel, roundedCell (cz c) voxel)
   \<and> (voxel \<noteq> 0 \<longrightarrow>
        (roundedCell r voxel = Cell n
           \<longleftrightarrow> of_int n - 1 / 2 \<le> r / voxel \<and> r / voxel < of_int n + 1 / 2))"
  using roundedCell_nearest [of voxel r n]
  by (simp add: dedupedEvents_def dedupLoop_keepFirst firstPerKey_keepFirst voxelKey_def)

lemma detect_length: "length (detectConvergenceAtTime strs tau sliceDu threshold steps bounds) \<le> 200"
  by (simp add: detectConvergenceAtTime_def)

lemma sorted_by_strength_desc:
  "sorted_wrt (\<lambda>a b. strength b \<le> strength a) (sort_key (\<lambda>c. - strength c) cs)"
proof -
  have "sorted (map (\<lambda>c. - strength c) (sort_key (\<lambda>c. - strength c) cs))"
    by (rule sorted_sort_key)
  then show ?thesis by (simp add: sorted_map)
qed

lemma sort_by_strength_stable:
  "filter (\<lambda>c. strength c = k) (sort_key (\<lambda>c. - strength c) cs) = filter (\<lambda>c. strength c = k) cs"
  using sort_key_stable [of "\<lambda>c. - strength c" "- k" cs] by simp

lemma set_take_sort_key:
  "length xs \<le> n \<Longrightarrow> set (take n (sort_key f xs)) = set xs"
  by simp

lemma set_detect_uncapped:
  assumes "length (dedupedEvents strs tau sliceDu threshold steps bounds) \<le> 200"
  shows "set (detectConvergenceAtTime strs tau sliceDu threshold steps bounds)
           = set (dedupedEvents strs tau sliceDu threshold steps bounds)"
  using assms by (simp add: detectConvergenceAtTime_def)

lemma reported_reportOf: "reported evs = reportOf ` set evs"
  by (simp add: reported_def reportOf_def)

lemma reported_detect:
  assumes "length (dedupedEvents strs tau sliceDu threshold steps bounds) \<le> 200"
  shows "reported (detectConvergenceAtTime strs tau sliceDu threshold steps bounds)
           = reported (dedupedEvents strs tau sliceDu threshold steps bounds)"
  using assms by (simp add: reported_def detectConvergenceAtTime_def)

lemma deduped_covers_cells:
  assumes "c \<in> set (candidates strs tau sliceDu threshold steps bounds)"
  shows "\<exists>d \<in> set (dedupedEvents strs tau sliceDu threshold steps bounds).
           voxelKey (threshold * 0.75) d = voxelKey (threshold * 0.75) c"
proof -
  have "voxelKey (threshold * 0.75) c
          \<in> voxelKey (threshold * 0.75) ` set (dedupedEvents strs tau sliceDu threshold steps bounds)"
    using assms by (simp add: dedupedEvents_def dedupLoop_keys)
  then show ?thesis by auto
qed

lemma detect_all_kept:
  assumes "distinct (map (voxelKey (threshold * 0.75)) (candidates strs tau sliceDu threshold steps bounds))"
    and "length (candidates strs tau sliceDu threshold steps bounds) \<le> 200"
  shows "set (detectConvergenceAtTime strs tau sliceDu threshold steps bounds)
           = set (candidates strs tau sliceDu threshold steps bounds)"
proof -
  have d: "dedupedEvents strs tau sliceDu threshold steps bounds
             = candidates strs tau sliceDu threshold steps bounds"
    using assms(1) by (simp add: dedupedEvents_def dedupLoop_distinct_keys)
  show ?thesis using assms(2) by (simp add: detectConvergenceAtTime_def d)
qed

text \<open>
  Claim C2. The result has at most 200 events and is sorted by strength, strongest
  first; events of equal strength stand in the order they have in the deduplicated
  list.
\<close>

theorem detect_bounded_sorted_stable:
  "length (detectConvergenceAtTime strs tau sliceDu threshold steps bounds) \<le> 200
   \<and> sorted_wrt (\<lambda>a b. strength b \<le> strength a)
         (detectConvergenceAtTime strs tau sliceDu threshold steps bounds)
   \<and> (\<forall>k. prefix (filter (\<lambda>c. strength c = k)
                       (detectConvergenceAtTime strs tau sliceDu threshold steps bounds))
                    (filter (\<lambda>c. strength c = k)
                       (dedupedEvents strs tau sliceDu threshold steps bounds)))"
proof -
  let ?d = "dedupedEvents strs tau sliceDu threshold steps bounds"
  let ?s = "sort_key (\<lambda>c. - strength c) ?d"
  have out: "detectConvergenceAtTime strs tau sliceDu threshold steps bounds = take 200 ?s"
    by (simp add: detectConvergenceAtTime_def)
  have len: "length (take 200 ?s) \<le> 200" by simp
  have srt: "sorted_wrt (\<lambda>a b. strength b \<le> strength a) (take 200 ?s)"
    by (rule sorted_wrt_take) (rule sorted_by_strength_desc)
  have stab: "prefix (filter (\<lambda>c. strength c = k) (take 200 ?s)) (filter (\<lambda>c. strength c = k) ?d)" for k
  proof -
    have "prefix (filter (\<lambda>c. strength c = k) (take 200 ?s)) (filter (\<lambda>c. strength c = k) ?s)"
      by (intro filter_mono_prefix take_is_prefix)
    then show ?thesis by (simp only: sort_by_strength_stable)
  qed
  from len srt stab show ?thesis unfolding out by blast
qed

section \<open>Exchanging two streams\<close>

text \<open>
  Every unordered pair of samples is met once by the scan, whatever the order of the
  samples: all ordered pairs together report every event twice.
\<close>

lemma reportOf_midpoint_sym: "reportOf (midpointEvent a b) = reportOf (midpointEvent b a)"
  by (simp add: reportOf_def midpointEvent_def add.commute insert_commute)

lemma converging_sym: "converging sliceDu threshold a b = converging sliceDu threshold b a"
  by (auto simp: converging_def abs_minus_commute power2_commute)

lemma converging_irrefl: "\<not> converging sliceDu threshold a a"
  by (simp add: converging_def)

lemma sum_mset_singletons:
  "(\<Sum>x\<in>#X. (if P x then {#f x#} else {#})) = image_mset f (filter_mset P X)"
  by (induction X) auto

lemma rowReports_add:
  "rowReports sliceDu threshold x (add_mset a X) =
     (if converging sliceDu threshold a x then {#reportOf (midpointEvent a x)#} else {#})
     + rowReports sliceDu threshold x X"
  by (simp add: rowReports_def converging_sym [of _ _ x a] reportOf_midpoint_sym [of x a])

lemma column_is_row:
  "(\<Sum>x\<in>#X. (if converging sliceDu threshold a x then {#reportOf (midpointEvent a x)#} else {#}))
     = rowReports sliceDu threshold a X"
  by (simp add: sum_mset_singletons rowReports_def)

lemma crossReports_add:
  "crossReports sliceDu threshold (add_mset a X) =
     rowReports sliceDu threshold a X + rowReports sliceDu threshold a X
     + crossReports sliceDu threshold X"
proof -
  have "crossReports sliceDu threshold (add_mset a X) =
          rowReports sliceDu threshold a (add_mset a X)
          + (\<Sum>x\<in>#X. rowReports sliceDu threshold x (add_mset a X))"
    by (simp add: crossReports_def)
  also have "rowReports sliceDu threshold a (add_mset a X) = rowReports sliceDu threshold a X"
    by (simp add: rowReports_add converging_irrefl)
  also have "(\<Sum>x\<in>#X. rowReports sliceDu threshold x (add_mset a X))
      = rowReports sliceDu threshold a X + crossReports sliceDu threshold X"
    by (simp add: rowReports_add sum_mset.distrib column_is_row crossReports_def)
  finally show ?thesis by (simp add: add.assoc)
qed

lemma scan_reports_Cons:
  "mset (map reportOf (pairwiseScan sliceDu threshold (a # rest))) =
     rowReports sliceDu threshold a (mset rest)
     + mset (map reportOf (pairwiseScan sliceDu threshold rest))"
  by (simp add: scanRow_eq rowReports_def multiset.map_comp comp_def)

lemma crossReports_twice_scan:
  "crossReports sliceDu threshold (mset xs) =
     mset (map reportOf (pairwiseScan sliceDu threshold xs))
     + mset (map reportOf (pairwiseScan sliceDu threshold xs))"
proof (induction xs)
  case Nil
  show ?case by (simp add: crossReports_def)
next
  case (Cons a rest)
  show ?case
    unfolding scan_reports_Cons
    by (simp add: crossReports_add Cons.IH ac_simps)
qed

lemma multiset_halve:
  fixes A B :: "'a multiset"
  assumes "A + A = B + B"
  shows "A = B"
proof (rule multiset_eqI)
  fix x
  from assms have "count (A + A) x = count (B + B) x" by simp
  then show "count A x = count B x" by simp
qed

lemma scan_reports_permute:
  assumes "mset xs = mset ys"
  shows "mset (map reportOf (pairwiseScan sliceDu threshold xs))
           = mset (map reportOf (pairwiseScan sliceDu threshold ys))"
proof (rule multiset_halve)
  show "mset (map reportOf (pairwiseScan sliceDu threshold xs))
          + mset (map reportOf (pairwiseScan sliceDu threshold xs))
        = mset (map reportOf (pairwiseScan sliceDu threshold ys))
          + mset (map reportOf (pairwiseScan sliceDu threshold ys))"
    using assms by (simp only: crossReports_twice_scan [symmetric])
qed

lemma mset_samplePoints:
  "mset (samplePoints strs tau steps bounds) =
     (\<Sum>s\<in>#mset strs. mset (map (withId (sdId s))
                                 (buildStreamPointsAtTime (sdParams s) bounds steps tau)))"
  unfolding samplePoints_def mset_concat
  by (induction strs) simp_all

lemma mset_swapAt: "i < length xs \<Longrightarrow> j < length xs \<Longrightarrow> mset (swapAt i j xs) = mset xs"
  unfolding swapAt_def by (rule mset_swap [of j xs i])

lemma candidates_reports_permute:
  assumes "mset strs' = mset strs"
  shows "mset (map reportOf (candidates strs' tau sliceDu threshold steps bounds))
           = mset (map reportOf (candidates strs tau sliceDu threshold steps bounds))"
proof (cases "steps = 0")
  case True
  then show ?thesis by (simp add: candidates_def)
next
  case False
  have "mset (samplePoints strs' tau steps bounds) = mset (samplePoints strs tau steps bounds)"
    using assms by (simp only: mset_samplePoints)
  then have "mset (map reportOf (pairwiseScan sliceDu threshold (samplePoints strs' tau steps bounds)))
           = mset (map reportOf (pairwiseScan sliceDu threshold (samplePoints strs tau steps bounds)))"
    by (rule scan_reports_permute)
  with False show ?thesis by (simp only: candidates_def if_False)
qed

lemma voxelKey_reportOf: "voxelKey voxel c = (case fst (snd (reportOf c)) of (x, y, z) \<Rightarrow>
     (roundedCell x voxel, roundedCell y voxel, roundedCell z voxel))"
  by (simp add: voxelKey_def reportOf_def)

lemma keys_permute:
  assumes "mset (map reportOf cs') = mset (map reportOf cs)"
  shows "mset (map (voxelKey voxel) cs') = mset (map (voxelKey voxel) cs)"
proof -
  let ?k = "\<lambda>r. case fst (snd r) of (x, y, z) \<Rightarrow>
     (roundedCell x voxel, roundedCell y voxel, roundedCell z voxel)"
  have eq: "mset (map (voxelKey voxel) ds) = image_mset ?k (mset (map reportOf ds))" for ds
    by (simp add: multiset.map_comp comp_def) (rule image_mset_cong, rule voxelKey_reportOf)
  show ?thesis unfolding eq by (simp only: assms)
qed

text \<open>
  Claim C3, amended. Exchanging two streams of the input leaves unchanged the set of
  (identifier pair, position, strength) triples of the candidates before
  deduplication. It leaves the set of triples of the final output unchanged when no two
  candidates share a cell key and there are at most 200 candidates, so that neither the
  deduplication nor the cap discards an event.
\<close>

theorem swap_keeps_candidate_reports:
  assumes "i < length strs" "j < length strs"
  shows "reported (candidates (swapAt i j strs) tau sliceDu threshold steps bounds)
           = reported (candidates strs tau sliceDu threshold steps bounds)
    \<and> (distinct (map (voxelKey (threshold * 0.75))
                   (candidates strs tau sliceDu threshold steps bounds))
         \<and> length (candidates strs tau sliceDu threshold steps bounds) \<le> 200
       \<longrightarrow> reported (detectConvergenceAtTime (swapAt i j strs) tau sliceDu threshold steps bounds)
             = reported (detectConvergenceAtTime strs tau sliceDu threshold steps bounds))"
proof -
  let ?c = "candidates strs tau sliceDu threshold steps bounds"
  let ?c' = "candidates (swapAt i j strs) tau sliceDu threshold steps bounds"
  have m: "mset (map reportOf ?c') = mset (map reportOf ?c)"
    using assms by (intro candidates_reports_permute mset_swapAt)
  have r: "reported ?c' = reported ?c"
  proof -
    from m have "set (map reportOf ?c') = set (map reportOf ?c)" by (rule mset_eq_setD)
    then show ?thesis by (simp add: reported_reportOf)
  qed
  have out: "reported (detectConvergenceAtTime (swapAt i j strs) tau sliceDu threshold steps bounds)
             = reported (detectConvergenceAtTime strs tau sliceDu threshold steps bounds)"
    if dk: "distinct (map (voxelKey (threshold * 0.75)) ?c)" and le: "length ?c \<le> 200"
  proof -
    have k: "mset (map (voxelKey (threshold * 0.75)) ?c') = mset (map (voxelKey (threshold * 0.75)) ?c)"
      using m by (rule keys_permute)
    have dk': "distinct (map (voxelKey (threshold * 0.75)) ?c')"
      using dk mset_eq_imp_distinct_iff [OF k] by simp
    have "length ?c' = length ?c"
      using mset_eq_length [OF m] by simp
    with le have le': "length ?c' \<le> 200" by simp
    show ?thesis
      using r by (simp add: reported_def detect_all_kept [OF dk le] detect_all_kept [OF dk' le'])
  qed
  from r out show ?thesis by blast
qed

section \<open>Two streams with the same parameters\<close>

lemma midpoint_of_twins:
  "midpointEvent (withId a s) (withId b s) = coincidence s a b"
  by (simp add: midpointEvent_def coincidence_def)

lemma twins_converge:
  assumes "a \<noteq> b" "0 \<le> sliceDu"
  shows "converging sliceDu threshold (withId a s) (withId b s)"
  using assms by (simp add: converging_def)

lemma twin_candidates:
  assumes p: "sdParams sa = sdParams sb" and ids: "sdId sa \<noteq> sdId sb"
    and st: "1 \<le> steps" and du: "0 \<le> sliceDu" and i: "i \<le> nat steps"
  shows "coincidence (pointOnStream (real i / of_int steps) tau (sdParams sa) bounds) (sdId sa) (sdId sb)
           \<in> set (candidates [sa, sb] tau sliceDu threshold steps bounds)"
proof -
  let ?pts = "buildStreamPointsAtTime (sdParams sa) bounds steps tau"
  let ?all = "samplePoints [sa, sb] tau steps bounds"
  let ?m = "nat steps + 1"
  have len: "length ?pts = ?m"
    using st by (simp add: length_buildStreamPointsAtTime nat_add_distrib)
  have all: "?all = map (withId (sdId sa)) ?pts @ map (withId (sdId sb)) ?pts"
    by (simp add: samplePoints_def p)
  have pi: "?pts ! i = pointOnStream (real i / of_int steps) tau (sdParams sa) bounds"
    using i st by (intro nth_buildStreamPointsAtTime) linarith
  have ai: "?all ! i = withId (sdId sa) (?pts ! i)"
    using i len by (simp add: all nth_append)
  have bi: "?all ! (?m + i) = withId (sdId sb) (?pts ! i)"
    using i len by (simp add: all nth_append)
  have "midpointEvent (?all ! i) (?all ! (?m + i)) \<in> set (pairwiseScan sliceDu threshold ?all)"
  proof (rule mem_pairwiseScan)
    show "i < ?m + i" by simp
    show "?m + i < length ?all" using i len by (simp add: all)
    show "converging sliceDu threshold (?all ! i) (?all ! (?m + i))"
      unfolding ai bi using ids du by (rule twins_converge)
  qed
  then have "coincidence (?pts ! i) (sdId sa) (sdId sb) \<in> set (pairwiseScan sliceDu threshold ?all)"
    by (simp only: ai bi midpoint_of_twins)
  then show ?thesis using st by (simp add: candidates_def pi)
qed

text \<open>
  Claim C5, amended. For two streams with the same parameters and different
  identifiers, any time, a non-negative path tolerance, any threshold and
  \<open>steps \<ge> 1\<close>: for every sampled \<open>u = i / steps\<close> the candidates before deduplication
  contain the event that lies on the common sample, with that \<open>u\<close> and with the
  sample's intensity as its strength; and when deduplication leaves at most 200 events,
  the result reports an event in the same voxel cell.
\<close>

theorem identical_streams_candidate_at_every_sample:
  assumes "sdParams sa = sdParams sb" "sdId sa \<noteq> sdId sb"
    and "1 \<le> steps" "0 \<le> sliceDu" "i \<le> nat steps"
  shows "coincidence (pointOnStream (real i / of_int steps) tau (sdParams sa) bounds) (sdId sa) (sdId sb)
           \<in> set (candidates [sa, sb] tau sliceDu threshold steps bounds)
    \<and> cu (coincidence (pointOnStream (real i / of_int steps) tau (sdParams sa) bounds)
             (sdId sa) (sdId sb)) = real i / of_int steps
    \<and> strength (coincidence (pointOnStream (real i / of_int steps) tau (sdParams sa) bounds)
             (sdId sa) (sdId sb))
        = intensity (pointOnStream (real i / of_int steps) tau (sdParams sa) bounds)
    \<and> (length (dedupedEvents [sa, sb] tau sliceDu threshold steps bounds) \<le> 200 \<longrightarrow>
         (\<exists>d \<in> set (detectConvergenceAtTime [sa, sb] tau sliceDu threshold steps bounds).
            voxelKey (threshold * 0.75) d
              = voxelKey (threshold * 0.75)
                  (coincidence (pointOnStream (real i / of_int steps) tau (sdParams sa) bounds)
                     (sdId sa) (sdId sb))))"
proof -
  let ?e = "coincidence (pointOnStream (real i / of_int steps) tau (sdParams sa) bounds) (sdId sa) (sdId sb)"
  have mem: "?e \<in> set (candidates [sa, sb] tau sliceDu threshold steps bounds)"
    using assms by (rule twin_candidates)
  have u: "cu ?e = real i / of_int steps"
    by (simp add: coincidence_def ptU_pointOnStream)
  have s: "strength ?e = intensity (pointOnStream (real i / of_int steps) tau (sdParams sa) bounds)"
    by (simp add: coincidence_def)
  have out: "\<exists>d \<in> set (detectConvergenceAtTime [sa, sb] tau sliceDu threshold steps bounds).
            voxelKey (threshold * 0.75) d = voxelKey (threshold * 0.75) ?e"
    if "length (dedupedEvents [sa, sb] tau sliceDu threshold steps bounds) \<le> 200"
    using deduped_covers_cells [OF mem] by (simp only: set_detect_uncapped [OF that])
  from mem u s out show ?thesis by blast
qed

section \<open>Worked runs\<close>

subsection \<open>Generated streams in the bounds of the page\<close>

text \<open>
  The generator reads the identifier only through its length, so the streams generated
  for \<open>S-1\<close>, \<open>S-2\<close> and \<open>S-3\<close> from one seed basis have the same parameters. With one
  segment each curve is sampled at \<open>u = 0\<close> and \<open>u = 1\<close>; the two samples lie in
  different voxel cells.
\<close>

lemma makeStreamParams_length:
  "length i = length j \<Longrightarrow> makeStreamParams i seedBase = makeStreamParams j seedBase"
  by (simp add: makeStreamParams_def subSeed_def)

lemma build_one_step:
  "buildStreamPointsAtTime p b 1 tau = [pointOnStream 0 tau p b, pointOnStream 1 tau p b]"
  by (simp add: buildStreamPointsAtTime_eq upto_rec1)

lemma coincidence_sel [simp]:
  "cx (coincidence s a b) = ptX s" "cy (coincidence s a b) = ptY s" "cz (coincidence s a b) = ptZ s"
  "strength (coincidence s a b) = intensity s" "cu (coincidence s a b) = ptU s"
  "streams (coincidence s a b) = [a, b]"
  by (simp_all add: coincidence_def)

lemma generated_same_params:
  "sdParams (generated ''S-2'') = sdParams (generated ''S-1'')"
  "sdParams (generated ''S-3'') = sdParams (generated ''S-1'')"
  by (simp_all add: generated_def makeStreamParams_length [of "''S-2''" "''S-1''"]
      makeStreamParams_length [of "''S-3''" "''S-1''"])

lemma generated_id [simp]: "sdId (generated ident) = ident"
  by (simp add: generated_def)

lemma ptX_start: "ptX (pointOnStream 0 0 p appBounds) = - 260"
  by (simp add: ptX_pointOnStream appBounds_def)

lemma twist_term_bound:
  "\<bar>sin t * twist (makeStreamParams ident seedBase) * 25\<bar> \<le> 10"
  using abs_wave_le [of "sin t" "twist (makeStreamParams ident seedBase) * 25" 10]
    twist_bound [of ident seedBase]
  by (simp add: mult.assoc)

lemma ptX_end_generated: "250 \<le> ptX (pointOnStream 1 0 (makeStreamParams ident seedBase) appBounds)"
  using twist_term_bound [of "(1 * fx (makeStreamParams ident seedBase) + 0 * 0.15) * pi * 2" ident seedBase]
  unfolding ptX_pointOnStream by (simp add: appBounds_def)

lemma roundedCell_apart:
  assumes "0 < v" "a \<le> - v" "0 \<le> b"
  shows "roundedCell a v \<noteq> roundedCell b v"
proof -
  from assms have "a / v \<le> - 1" by (simp add: field_simps)
  then have "a / v + 1 / 2 < 0" by simp
  then have 1: "\<lfloor>a / v + 1 / 2\<rfloor> < 0" by (simp add: floor_less_iff)
  from assms have "0 \<le> b / v + 1 / 2" by simp
  then have 2: "0 \<le> \<lfloor>b / v + 1 / 2\<rfloor>" by simp
  from 1 2 have "\<lfloor>a / v + 1 / 2\<rfloor> \<noteq> \<lfloor>b / v + 1 / 2\<rfloor>" by linarith
  with assms(1) show ?thesis by (simp add: roundedCell_def)
qed

lemma start_end_cells_apart:
  "roundedCell (ptX (pointOnStream 0 0 (makeStreamParams ident seedBase) appBounds)) 48
     \<noteq> roundedCell (ptX (pointOnStream 1 0 (makeStreamParams ident seedBase) appBounds)) 48"
  using ptX_end_generated [of ident seedBase]
  by (intro roundedCell_apart) (simp_all add: ptX_start)

lemma generated_pair_candidates:
  "candidates [generated ''S-1'', generated ''S-2''] 0 0.025 64 1 appBounds =
     [coincidence (pointOnStream 0 0 (makeStreamParams ''S-1'' 0) appBounds) ''S-1'' ''S-2'',
      coincidence (pointOnStream 1 0 (makeStreamParams ''S-1'' 0) appBounds) ''S-1'' ''S-2'']"
  by (simp add: candidates_def samplePoints_def generated_def build_one_step ptU_pointOnStream
      coincidence_def makeStreamParams_length [of "''S-2''" "''S-1''"])

lemma generated_cells_apart:
  "voxelKey 48 (coincidence (pointOnStream 0 0 (makeStreamParams ''S-1'' 0) appBounds) a b)
     \<noteq> voxelKey 48 (coincidence (pointOnStream 1 0 (makeStreamParams ''S-1'' 0) appBounds) a' b')"
  using start_end_cells_apart [of "''S-1''" 0]
  by (simp add: voxelKey_def)

lemma generated_pair_keys_distinct:
  "distinct (map (voxelKey (64 * 0.75))
      (candidates [generated ''S-1'', generated ''S-2''] 0 0.025 64 1 appBounds))"
proof -
  have v: "(64::real) * 0.75 = 48" by simp
  show ?thesis
    unfolding generated_pair_candidates v
    using generated_cells_apart [of "''S-1''" "''S-2''" "''S-1''" "''S-2''"] by simp
qed

lemma generated_triple_deduped:
  "dedupedEvents [generated ''S-1'', generated ''S-2'', generated ''S-3''] 0 0.025 64 1 appBounds =
     [coincidence (pointOnStream 0 0 (makeStreamParams ''S-1'' 0) appBounds) ''S-1'' ''S-2'',
      coincidence (pointOnStream 1 0 (makeStreamParams ''S-1'' 0) appBounds) ''S-1'' ''S-2'']"
  using start_end_cells_apart [of "''S-1''" 0]
  by (simp add: dedupedEvents_def candidates_def samplePoints_def generated_def build_one_step
      ptU_pointOnStream voxelKey_def Let_def coincidence_def
      makeStreamParams_length [of "''S-2''" "''S-1''"] makeStreamParams_length [of "''S-3''" "''S-1''"])

lemma generated_triple_swapped_deduped:
  "dedupedEvents [generated ''S-3'', generated ''S-2'', generated ''S-1''] 0 0.025 64 1 appBounds =
     [coincidence (pointOnStream 0 0 (makeStreamParams ''S-1'' 0) appBounds) ''S-3'' ''S-2'',
      coincidence (pointOnStream 1 0 (makeStreamParams ''S-1'' 0) appBounds) ''S-3'' ''S-2'']"
  using start_end_cells_apart [of "''S-1''" 0]
  by (simp add: dedupedEvents_def candidates_def samplePoints_def generated_def build_one_step
      ptU_pointOnStream voxelKey_def Let_def coincidence_def
      makeStreamParams_length [of "''S-2''" "''S-1''"] makeStreamParams_length [of "''S-3''" "''S-1''"])

lemma reported_pairs_of_coincidences:
  "fst ` reported [coincidence s a b, coincidence s' a b] = {{a, b}}"
  by (simp add: reported_def reportOf_def)

text \<open>
  Claim C3 fails as stated: of three streams with the same parameters the scan meets
  the pair of the first two first, and deduplication keeps that pair for each cell.
  Exchanging the first and the third stream changes the pair that is reported.
\<close>

theorem swap_changes_reported_events:
  "reported (detectConvergenceAtTime
               (swapAt 0 2 [generated ''S-1'', generated ''S-2'', generated ''S-3''])
               0 0.025 64 1 appBounds)
   \<noteq> reported (detectConvergenceAtTime
               [generated ''S-1'', generated ''S-2'', generated ''S-3''] 0 0.025 64 1 appBounds)"
proof
  let ?given = "[generated ''S-1'', generated ''S-2'', generated ''S-3'']"
  let ?swapped = "[generated ''S-3'', generated ''S-2'', generated ''S-1'']"
  assume eq: "reported (detectConvergenceAtTime (swapAt 0 2 ?given) 0 0.025 64 1 appBounds)
     = reported (detectConvergenceAtTime ?given 0 0.025 64 1 appBounds)"
  have sw: "swapAt 0 2 ?given = ?swapped"
    by (simp add: swapAt_def)
  have l: "reported (detectConvergenceAtTime ?swapped 0 0.025 64 1 appBounds)
           = reported (dedupedEvents ?swapped 0 0.025 64 1 appBounds)"
    by (rule reported_detect) (simp only: generated_triple_swapped_deduped, simp)
  have r: "reported (detectConvergenceAtTime ?given 0 0.025 64 1 appBounds)
           = reported (dedupedEvents ?given 0 0.025 64 1 appBounds)"
    by (rule reported_detect) (simp only: generated_triple_deduped, simp)
  from eq have "fst ` reported (dedupedEvents ?swapped 0 0.025 64 1 appBounds)
      = fst ` reported (dedupedEvents ?given 0 0.025 64 1 appBounds)"
    by (simp only: sw l r)
  then have "{{''S-3'', ''S-2''}} = {{''S-1'', ''S-2''}}"
    by (simp only: generated_triple_deduped generated_triple_swapped_deduped
          reported_pairs_of_coincidences)
  then show False by (auto simp: doubleton_eq_iff)
qed

text \<open>Two generated streams: no two candidates share a cell, and the exchange is unseen.\<close>

theorem swap_keeps_candidate_reports_witness:
  "0 < length [generated ''S-1'', generated ''S-2''] \<and> 1 < length [generated ''S-1'', generated ''S-2'']
   \<and> distinct (map (voxelKey (64 * 0.75))
        (candidates [generated ''S-1'', generated ''S-2''] 0 0.025 64 1 appBounds))
   \<and> length (candidates [generated ''S-1'', generated ''S-2''] 0 0.025 64 1 appBounds) \<le> 200
   \<and> swapAt 0 1 [generated ''S-1'', generated ''S-2''] = [generated ''S-2'', generated ''S-1'']
   \<and> reported (detectConvergenceAtTime [generated ''S-2'', generated ''S-1''] 0 0.025 64 1 appBounds)
       = reported (detectConvergenceAtTime [generated ''S-1'', generated ''S-2''] 0 0.025 64 1 appBounds)"
proof -
  let ?strs = "[generated ''S-1'', generated ''S-2'']"
  have i: "0 < length ?strs" and j: "1 < length ?strs" by simp_all
  have le: "length (candidates ?strs 0 0.025 64 1 appBounds) \<le> 200"
    by (simp only: generated_pair_candidates) simp
  have sw: "swapAt 0 1 ?strs = [generated ''S-2'', generated ''S-1'']"
    by (simp add: swapAt_def)
  from swap_keeps_candidate_reports [OF i j, of 0 "0.025" 64 1 appBounds]
    generated_pair_keys_distinct le
  have "reported (detectConvergenceAtTime (swapAt 0 1 ?strs) 0 0.025 64 1 appBounds)
       = reported (detectConvergenceAtTime ?strs 0 0.025 64 1 appBounds)"
    by blast
  with sw generated_pair_keys_distinct le show ?thesis by simp
qed

text \<open>
  Claim C5 fails as stated: with 200 segments there are 201 sampled values of \<open>u\<close>, and
  the result has at most 200 events.
\<close>

theorem cap_hides_sampled_coincidences:
  "\<not> (\<forall>i \<le> 200. \<exists>c \<in> set (detectConvergenceAtTime [generated ''S-1'', generated ''S-2'']
                                  0 0.025 64 200 appBounds). cu c = real i / 200)"
proof
  let ?out = "detectConvergenceAtTime [generated ''S-1'', generated ''S-2''] 0 0.025 64 200 appBounds"
  assume all: "\<forall>i \<le> 200. \<exists>c \<in> set ?out. cu c = real i / 200"
  have sub: "(\<lambda>i. real i / 200) ` {0..200} \<subseteq> cu ` set ?out"
  proof
    fix r assume "r \<in> (\<lambda>i. real i / 200) ` {0..200}"
    then obtain i where i: "i \<le> 200" "r = real i / 200" by auto
    with all obtain c where "c \<in> set ?out" "cu c = real i / 200" by blast
    with i show "r \<in> cu ` set ?out" by force
  qed
  have "inj_on (\<lambda>i. real i / 200) {0..200::nat}" by (simp add: inj_on_def)
  then have "card ((\<lambda>i. real i / 200) ` {0..200::nat}) = 201" by (simp add: card_image)
  moreover have "card ((\<lambda>i. real i / 200) ` {0..200::nat}) \<le> card (cu ` set ?out)"
    using sub by (intro card_mono) auto
  moreover have "card (cu ` set ?out) \<le> card (set ?out)" by (intro card_image_le) auto
  moreover have "card (set ?out) \<le> length ?out" by (rule card_length)
  moreover have "length ?out \<le> 200" by (rule detect_length)
  ultimately show False by linarith
qed

text \<open>The candidates of two generated streams sampled with one segment.\<close>

theorem identical_streams_candidate_at_every_sample_witness:
  "sdParams (generated ''S-1'') = sdParams (generated ''S-2'')
   \<and> sdId (generated ''S-1'') \<noteq> sdId (generated ''S-2'')
   \<and> (1::int) \<le> 1 \<and> (0::real) \<le> 0.025 \<and> (1::nat) \<le> nat 1
   \<and> length (dedupedEvents [generated ''S-1'', generated ''S-2''] 0 0.025 64 1 appBounds) \<le> 200
   \<and> coincidence (pointOnStream (real 1 / of_int 1) 0 (sdParams (generated ''S-1'')) appBounds)
        ''S-1'' ''S-2''
       \<in> set (candidates [generated ''S-1'', generated ''S-2''] 0 0.025 64 1 appBounds)
   \<and> (\<exists>d \<in> set (detectConvergenceAtTime [generated ''S-1'', generated ''S-2''] 0 0.025 64 1 appBounds).
         voxelKey (64 * 0.75) d
           = voxelKey (64 * 0.75)
               (coincidence (pointOnStream (real 1 / of_int 1) 0 (sdParams (generated ''S-1'')) appBounds)
                  ''S-1'' ''S-2''))"
proof -
  have p: "sdParams (generated ''S-1'') = sdParams (generated ''S-2'')"
    by (simp only: generated_same_params)
  have ids: "sdId (generated ''S-1'') \<noteq> sdId (generated ''S-2'')" by simp
  have le: "length (dedupedEvents [generated ''S-1'', generated ''S-2''] 0 0.025 64 1 appBounds) \<le> 200"
  proof -
    have "length (dedupedEvents [generated ''S-1'', generated ''S-2''] 0 0.025 64 1 appBounds)
            \<le> length (candidates [generated ''S-1'', generated ''S-2''] 0 0.025 64 1 appBounds)"
      unfolding dedupedEvents_def Let_def by (rule length_dedupLoop_le)
    also have "\<dots> = 2" by (simp only: generated_pair_candidates) simp
    finally show ?thesis by simp
  qed
  from identical_streams_candidate_at_every_sample
    [OF p ids, of 1 "0.025" 1 0 appBounds 64] le
  show ?thesis using p by simp
qed

theorem candidates_are_exactly_the_converging_pairs_witness:
  "(1::int) \<noteq> 0 \<and> distinct (map sdId [generated ''S-1'', generated ''S-2''])
   \<and> coincidence (pointOnStream 0 0 (makeStreamParams ''S-1'' 0) appBounds) ''S-1'' ''S-2''
       \<in> set (candidates [generated ''S-1'', generated ''S-2''] 0 0.025 64 1 appBounds)
   \<and> (\<exists>s t. streams (coincidence (pointOnStream 0 0 (makeStreamParams ''S-1'' 0) appBounds)
                 ''S-1'' ''S-2'') = [s, t] \<and> s \<noteq> t)
   \<and> streamId (samplePoints [generated ''S-1'', generated ''S-2''] 0 1 appBounds ! 0)
       \<noteq> streamId (samplePoints [generated ''S-1'', generated ''S-2''] 0 1 appBounds ! 2)"
proof -
  let ?strs = "[generated ''S-1'', generated ''S-2'']"
  let ?e = "coincidence (pointOnStream 0 0 (makeStreamParams ''S-1'' 0) appBounds) ''S-1'' ''S-2''"
  note t = candidates_are_exactly_the_converging_pairs [of 1 ?strs 0 "0.025" 64 appBounds 0]
  have ids: "distinct (map sdId ?strs)" by simp
  have mem: "?e \<in> set (candidates ?strs 0 0.025 64 1 appBounds)"
    by (simp only: generated_pair_candidates) simp
  from t have "\<forall>c \<in> set (candidates ?strs 0 0.025 64 1 appBounds). \<exists>s t. streams c = [s, t] \<and> s \<noteq> t"
    by blast
  with mem have pair: "\<exists>s t. streams ?e = [s, t] \<and> s \<noteq> t" by blast
  have len: "length (samplePoints ?strs 0 1 appBounds) = 4"
    by (simp add: length_samplePoints)
  from t ids have "\<forall>i < length (samplePoints ?strs 0 1 appBounds).
         \<forall>j < length (samplePoints ?strs 0 1 appBounds).
           (streamId (samplePoints ?strs 0 1 appBounds ! i) \<noteq> streamId (samplePoints ?strs 0 1 appBounds ! j))
           = (i div nat (1 + 1) \<noteq> j div nat (1 + 1))"
    by blast
  then have own: "streamId (samplePoints ?strs 0 1 appBounds ! 0)
       \<noteq> streamId (samplePoints ?strs 0 1 appBounds ! 2)"
    using len by simp
  from ids mem pair own show ?thesis by simp
qed

theorem threshold_monotone_candidate_count_witness:
  "(0::real) \<le> 16 \<and> (16::real) \<le> 64
   \<and> length (candidates [generated ''S-1'', generated ''S-2''] 0 0.025 16 1 appBounds)
       \<le> length (candidates [generated ''S-1'', generated ''S-2''] 0 0.025 64 1 appBounds)
   \<and> length (candidates [generated ''S-1'', generated ''S-2''] 0 0.025 64 1 appBounds) = 2"
proof -
  have "length (candidates [generated ''S-1'', generated ''S-2''] 0 0.025 16 1 appBounds)
       \<le> length (candidates [generated ''S-1'', generated ''S-2''] 0 0.025 64 1 appBounds)"
    by (rule threshold_monotone_candidate_count) simp_all
  moreover have "length (candidates [generated ''S-1'', generated ''S-2''] 0 0.025 64 1 appBounds) = 2"
    by (simp only: generated_pair_candidates) simp
  ultimately show ?thesis by simp
qed

subsection \<open>Two calm streams in narrow bounds\<close>

text \<open>
  With two segments the samples lie at \<open>x = -24\<close>, \<open>0\<close> and \<open>24\<close>; one voxel is \<open>48\<close>
  wide, so the first sample lies half a cell below zero.
\<close>

lemma build_two_steps:
  "buildStreamPointsAtTime p b 2 tau
     = [pointOnStream 0 tau p b, pointOnStream (1 / 2) tau p b, pointOnStream 1 tau p b]"
  by (simp add: buildStreamPointsAtTime_eq upto_rec1)

lemma calm_samples:
  "pointOnStream 0 0 calm narrowBounds
     = \<lparr>ptX = - 24, ptY = 10, ptZ = 130, ptU = 0, intensity = 1 / 2\<rparr>"
  "pointOnStream (1 / 2) 0 calm narrowBounds
     = \<lparr>ptX = 0, ptY = cos (6 * pi / 5) * 10, ptZ = 130, ptU = 1 / 2, intensity = 1 / 2\<rparr>"
  "pointOnStream 1 0 calm narrowBounds
     = \<lparr>ptX = 24, ptY = cos (12 * pi / 5) * 10, ptZ = 130, ptU = 1, intensity = 1 / 2\<rparr>"
  by (simp_all add: pointOnStream_def calm_def narrowBounds_def Let_def)

lemma calm_candidates:
  "candidates calmPair 0 0.025 64 2 narrowBounds =
     [\<lparr>cx = - 24, cy = 10, cz = 130, strength = 1 / 2, cu = 0, streams = [''S-1'', ''S-2'']\<rparr>,
      \<lparr>cx = 0, cy = cos (6 * pi / 5) * 10, cz = 130, strength = 1 / 2, cu = 1 / 2,
        streams = [''S-1'', ''S-2'']\<rparr>,
      \<lparr>cx = 24, cy = cos (12 * pi / 5) * 10, cz = 130, strength = 1 / 2, cu = 1,
        streams = [''S-1'', ''S-2'']\<rparr>]"
  by (simp add: candidates_def samplePoints_def calmPair_def build_two_steps calm_samples withId_def)

lemma small_offset_cell:
  assumes "\<bar>y\<bar> \<le> 10"
  shows "roundedCell y 48 = Cell 0"
proof -
  from assms have "of_int 0 - 1 / 2 \<le> y / 48 \<and> y / 48 < of_int 0 + 1 / 2"
    by (simp add: abs_le_iff)
  then show ?thesis by (subst roundedCell_nearest) simp_all
qed

lemma small_offset_away:
  assumes "\<bar>y\<bar> \<le> 10"
  shows "roundHalfAway (y / 48) = 0"
proof (cases "0 \<le> y")
  case True
  with assms have "\<lfloor>y / 48 + 1 / 2\<rfloor> = 0" by (simp add: floor_eq_iff)
  with True show ?thesis by (simp add: roundHalfAway_def)
next
  case False
  with assms have "\<lceil>y / 48 - 1 / 2\<rceil> = 0" by (simp add: ceiling_eq_iff abs_le_iff)
  with False show ?thesis by (simp add: roundHalfAway_def)
qed

lemma wave_offset: "\<bar>cos (t::real) * 10\<bar> \<le> 10"
  using abs_wave_le [of "cos t" 10 10] by simp

lemma line_code_dedup:
  assumes "\<bar>y1\<bar> \<le> 10" "\<bar>y2\<bar> \<le> 10"
  shows "keepFirst (voxelKey 48) []
           [\<lparr>cx = - 24, cy = 10, cz = 130, strength = 1 / 2, cu = 0, streams = [''S-1'', ''S-2'']\<rparr>,
            \<lparr>cx = 0, cy = y1, cz = 130, strength = 1 / 2, cu = 1 / 2, streams = [''S-1'', ''S-2'']\<rparr>,
            \<lparr>cx = 24, cy = y2, cz = 130, strength = 1 / 2, cu = 1, streams = [''S-1'', ''S-2'']\<rparr>]
         = [\<lparr>cx = - 24, cy = 10, cz = 130, strength = 1 / 2, cu = 0, streams = [''S-1'', ''S-2'']\<rparr>,
            \<lparr>cx = 24, cy = y2, cz = 130, strength = 1 / 2, cu = 1, streams = [''S-1'', ''S-2'']\<rparr>]"
proof -
  have x: "roundedCell (- 24) 48 = Cell 0" "roundedCell 0 48 = Cell 0" "roundedCell 24 48 = Cell 1"
    by (simp_all add: roundedCell_def)
  have y: "roundedCell 10 48 = Cell 0" "roundedCell y1 48 = Cell 0" "roundedCell y2 48 = Cell 0"
    using assms by (simp_all add: small_offset_cell)
  show ?thesis by (simp add: voxelKey_def x y)
qed

lemma line_spec_dedup:
  assumes "\<bar>y1\<bar> \<le> 10" "\<bar>y2\<bar> \<le> 10"
  shows "keepFirst (specKey 48) []
           [\<lparr>cx = - 24, cy = 10, cz = 130, strength = 1 / 2, cu = 0, streams = [''S-1'', ''S-2'']\<rparr>,
            \<lparr>cx = 0, cy = y1, cz = 130, strength = 1 / 2, cu = 1 / 2, streams = [''S-1'', ''S-2'']\<rparr>,
            \<lparr>cx = 24, cy = y2, cz = 130, strength = 1 / 2, cu = 1, streams = [''S-1'', ''S-2'']\<rparr>]
         = [\<lparr>cx = - 24, cy = 10, cz = 130, strength = 1 / 2, cu = 0, streams = [''S-1'', ''S-2'']\<rparr>,
            \<lparr>cx = 0, cy = y1, cz = 130, strength = 1 / 2, cu = 1 / 2, streams = [''S-1'', ''S-2'']\<rparr>,
            \<lparr>cx = 24, cy = y2, cz = 130, strength = 1 / 2, cu = 1, streams = [''S-1'', ''S-2'']\<rparr>]"
proof -
  have x: "roundHalfAway (- (1 / 2)) = - 1" "roundHalfAway 0 = 0" "roundHalfAway (1 / 2) = 1"
    by (simp_all add: roundHalfAway_def ceiling_eq_iff)
  have y: "roundHalfAway (5 / 24) = 0" "roundHalfAway (y1 / 48) = 0" "roundHalfAway (y2 / 48) = 0"
    using assms small_offset_away [of 10] by (simp_all add: small_offset_away)
  show ?thesis by (simp add: specKey_def x y)
qed

lemma calm_deduped:
  "dedupedEvents calmPair 0 0.025 64 2 narrowBounds =
     [\<lparr>cx = - 24, cy = 10, cz = 130, strength = 1 / 2, cu = 0, streams = [''S-1'', ''S-2'']\<rparr>,
      \<lparr>cx = 24, cy = cos (12 * pi / 5) * 10, cz = 130, strength = 1 / 2, cu = 1,
        streams = [''S-1'', ''S-2'']\<rparr>]"
proof -
  have v: "(64::real) * 0.75 = 48" by simp
  show ?thesis
    unfolding dedupedEvents_def Let_def calm_candidates dedupLoop_keepFirst v
    by (rule line_code_dedup) (rule wave_offset)+
qed

lemma calm_spec_dedup:
  "firstPerKey (specKey (64 * 0.75)) (candidates calmPair 0 0.025 64 2 narrowBounds) =
     candidates calmPair 0 0.025 64 2 narrowBounds"
proof -
  have v: "(64::real) * 0.75 = 48" by simp
  show ?thesis
    unfolding calm_candidates firstPerKey_keepFirst v
    by (rule line_spec_dedup) (rule wave_offset)+
qed

text \<open>
  Claim C4 fails as stated: \<open>Math.round\<close> takes \<open>-0.5\<close> to \<open>0\<close>, so the candidates at
  \<open>x = -24\<close> and \<open>x = 0\<close> share a key and the second is dropped; rounding halves away
  from zero would take \<open>-0.5\<close> to \<open>-1\<close> and keep all three.
\<close>

theorem half_cell_rounds_up_not_away:
  "dedupedEvents calmPair 0 0.025 64 2 narrowBounds
     \<noteq> firstPerKey (specKey (64 * 0.75)) (candidates calmPair 0 0.025 64 2 narrowBounds)"
proof
  assume "dedupedEvents calmPair 0 0.025 64 2 narrowBounds
     = firstPerKey (specKey (64 * 0.75)) (candidates calmPair 0 0.025 64 2 narrowBounds)"
  then have "length (dedupedEvents calmPair 0 0.025 64 2 narrowBounds)
     = length (candidates calmPair 0 0.025 64 2 narrowBounds)"
    by (simp only: calm_spec_dedup)
  then show False by (simp only: calm_deduped calm_candidates) simp
qed

text \<open>The same run, read off the amended claim.\<close>

theorem dedup_keeps_first_of_each_cell_witness:
  "(48::real) \<noteq> 0 \<and> roundedCell (- 24) 48 = Cell 0 \<and> roundedCell 0 48 = Cell 0
   \<and> firstPerKey (voxelKey (64 * 0.75)) (candidates calmPair 0 0.025 64 2 narrowBounds)
       = [\<lparr>cx = - 24, cy = 10, cz = 130, strength = 1 / 2, cu = 0, streams = [''S-1'', ''S-2'']\<rparr>,
          \<lparr>cx = 24, cy = cos (12 * pi / 5) * 10, cz = 130, strength = 1 / 2, cu = 1,
            streams = [''S-1'', ''S-2'']\<rparr>]"
proof -
  note t = dedup_keeps_first_of_each_cell [of calmPair 0 "0.025" 64 2 narrowBounds 48 undefined _ 0]
  have a: "roundedCell (- 24) 48 = Cell 0" using t [of "- 24"] by simp
  have b: "roundedCell 0 48 = Cell 0" using t [of 0] by simp
  have "dedupedEvents calmPair 0 0.025 64 2 narrowBounds
          = firstPerKey (voxelKey (64 * 0.75)) (candidates calmPair 0 0.025 64 2 narrowBounds)"
    using t [of 0] by (rule conjunct1)
  then have c: "firstPerKey (voxelKey (64 * 0.75)) (candidates calmPair 0 0.025 64 2 narrowBounds)
       = [\<lparr>cx = - 24, cy = 10, cz = 130, strength = 1 / 2, cu = 0, streams = [''S-1'', ''S-2'']\<rparr>,
          \<lparr>cx = 24, cy = cos (12 * pi / 5) * 10, cz = 130, strength = 1 / 2, cu = 1,
            streams = [''S-1'', ''S-2'']\<rparr>]"
    by (simp only: calm_deduped)
  from a b c show ?thesis by simp
qed

text \<open>
  The result of the run. Deduplication alone already hides a sampled coincidence, far
  below the cap: no event is reported for \<open>u = 1 / 2\<close>. The strength of a coincidence
  is the intensity of the samples, here one half.
\<close>

lemma calm_detect:
  "detectConvergenceAtTime calmPair 0 0.025 64 2 narrowBounds =
     [\<lparr>cx = - 24, cy = 10, cz = 130, strength = 1 / 2, cu = 0, streams = [''S-1'', ''S-2'']\<rparr>,
      \<lparr>cx = 24, cy = cos (12 * pi / 5) * 10, cz = 130, strength = 1 / 2, cu = 1,
        streams = [''S-1'', ''S-2'']\<rparr>]"
  unfolding detectConvergenceAtTime_def calm_deduped by simp

lemma dedup_hides_sampled_coincidence:
  "\<not> (\<exists>c \<in> set (detectConvergenceAtTime calmPair 0 0.025 64 2 narrowBounds). cu c = 1 / 2)"
  unfolding calm_detect by simp

lemma calm_strength_below_one:
  "\<forall>c \<in> set (detectConvergenceAtTime calmPair 0 0.025 64 2 narrowBounds). strength c = 1 / 2"
  unfolding calm_detect by simp

end
